theory Spec2Isabelle
  imports Complex_Main "HOL-Library.Multiset"
begin

section \<open>JavaScript values used by the visual\<close>

subsection \<open>Strings\<close>

text \<open>
  A JavaScript string is a sequence of UTF-16 code units; \<open>length\<close>, \<open>trim\<close>, \<open>padStart\<close>
  and the regular expression \<open>\s\<close> all work on code units. A literal of the source is
  written \<open>js ''...''\<close>.
\<close>

type_synonym jsstring = "nat list"

definition js :: "string \<Rightarrow> jsstring" where
  "js s = map of_char s"

text \<open>
  The characters \<open>trim\<close> strips and \<open>\s\<close> matches (ECMAScript WhiteSpace and
  LineTerminator): TAB, LF, VT, FF, CR, SPACE, U+00A0, U+1680, U+2000 to U+200A, U+2028,
  U+2029, U+202F, U+205F, U+3000 and U+FEFF.
\<close>

definition isWhiteSpace :: "nat \<Rightarrow> bool" where
  "isWhiteSpace c =
     (c = 9 \<or> c = 10 \<or> c = 11 \<or> c = 12 \<or> c = 13 \<or> c = 32 \<or> c = 160 \<or> c = 5760
      \<or> (8192 \<le> c \<and> c \<le> 8202) \<or> c = 8232 \<or> c = 8233 \<or> c = 8239 \<or> c = 8287
      \<or> c = 12288 \<or> c = 65279)"

text \<open>\<open>s.trim()\<close>\<close>

definition trim :: "jsstring \<Rightarrow> jsstring" where
  "trim s = rev (dropWhile isWhiteSpace (rev (dropWhile isWhiteSpace s)))"

text \<open>\<open>s.replace(/\s+/g, "-")\<close>: every maximal run of whitespace becomes one dash (code unit 45).\<close>

function replace_ws_dash :: "jsstring \<Rightarrow> jsstring" where
  "replace_ws_dash [] = []"
| "replace_ws_dash (c # cs) =
     (if isWhiteSpace c then 45 # replace_ws_dash (dropWhile isWhiteSpace cs)
      else c # replace_ws_dash cs)"
  by pat_completeness auto
termination
  by (relation "measure length") (auto simp: less_Suc_eq_le length_dropWhile_le)

text \<open>\<open>s.padStart(n, c)\<close> for a one-character filler \<open>c\<close>.\<close>

definition padStart :: "nat \<Rightarrow> nat \<Rightarrow> jsstring \<Rightarrow> jsstring" where
  "padStart n c s = replicate (n - length s) c @ s"

text \<open>
  \<open>s.toLowerCase()\<close> on the letters A to Z. The case mappings of code units outside ASCII
  are left out: none of them yields a letter of \<open>"interstate"\<close>, the only string the
  result is compared with.
\<close>

definition toLowerCase :: "jsstring \<Rightarrow> jsstring" where
  "toLowerCase s = map (\<lambda>c. if 65 \<le> c \<and> c \<le> 90 then c + 32 else c) s"

text \<open>\<open>xs.join(sep)\<close>\<close>

fun join :: "jsstring \<Rightarrow> jsstring list \<Rightarrow> jsstring" where
  "join sep [] = []"
| "join sep [x] = x"
| "join sep (x # y # ys) = x @ sep @ join sep (y # ys)"

subsection \<open>Numbers\<close>

text \<open>
  A JavaScript number is an IEEE-754 double: a finite value, an infinity or NaN. Finite
  values are modelled by the real they denote and their sums are exact; the doubles agree
  with this wherever no rounding happens, in particular on integers whose sums stay
  within \<open>2^53\<close> in absolute value. Negative zero is not distinguished from zero.
\<close>

datatype jsnumber = Fin real | PInf | NInf | NaN

text \<open>\<open>a <= b\<close>: false as soon as one side is NaN.\<close>

fun js_le :: "jsnumber \<Rightarrow> jsnumber \<Rightarrow> bool" where
  "js_le NaN b = False"
| "js_le a NaN = False"
| "js_le (Fin a) (Fin b) = (a \<le> b)"
| "js_le NInf b = True"
| "js_le a PInf = True"
| "js_le PInf b = False"
| "js_le (Fin a) NInf = False"

text \<open>\<open>a + b\<close> on numbers: opposite infinities add up to NaN.\<close>

fun js_add :: "jsnumber \<Rightarrow> jsnumber \<Rightarrow> jsnumber" where
  "js_add NaN b = NaN"
| "js_add a NaN = NaN"
| "js_add (Fin a) (Fin b) = Fin (a + b)"
| "js_add PInf NInf = NaN"
| "js_add NInf PInf = NaN"
| "js_add PInf b = PInf"
| "js_add NInf b = NInf"
| "js_add (Fin a) b = b"

definition isNaN :: "jsnumber \<Rightarrow> bool" where
  "isNaN n = (n = NaN)"

text \<open>\<open>n || 0\<close> on a number: NaN and zero are falsy, every other number stands.\<close>

definition or_zero :: "jsnumber \<Rightarrow> jsnumber" where
  "or_zero n = (if n = NaN \<or> n = Fin 0 then Fin 0 else n)"

section \<open>Classification: \<open>getColor\<close> and \<open>getChoro\<close>\<close>

text \<open>The breakpoints both functions of \<open>src/visual.ts\<close> declare.\<close>

definition breaks :: "real list" where
  "breaks = [0, 10, 50, 100, 200, 500, 1000]"

definition getColor :: "jsnumber \<Rightarrow> jsstring" where
  "getColor val =
     (if js_le val (Fin (breaks ! 0)) then js ''rgba(0,0,0,0)''
      else if js_le val (Fin (breaks ! 1)) then js ''#ffffcc''
      else if js_le val (Fin (breaks ! 2)) then js ''#ffeda0''
      else if js_le val (Fin (breaks ! 3)) then js ''#feb24c''
      else if js_le val (Fin (breaks ! 4)) then js ''#fd8d3c''
      else if js_le val (Fin (breaks ! 5)) then js ''#f03b20''
      else if js_le val (Fin (breaks ! 6)) then js ''#bd0026''
      else js ''#800026'')"

definition getChoro :: "jsnumber \<Rightarrow> jsstring" where
  "getChoro val =
     (if js_le val (Fin (breaks ! 0)) then js ''rgba(0,0,0,0)''
      else if js_le val (Fin (breaks ! 1)) then js ''#4575b4''
      else if js_le val (Fin (breaks ! 2)) then js ''#74add1''
      else if js_le val (Fin (breaks ! 3)) then js ''#abd9e9''
      else if js_le val (Fin (breaks ! 4)) then js ''#fdae61''
      else if js_le val (Fin (breaks ! 5)) then js ''#f46d43''
      else if js_le val (Fin (breaks ! 6)) then js ''#d73027''
      else js ''#a50026'')"

text \<open>
  The version of the visual that clusters its markers with \<open>leaflet.markercluster\<close>
  (another source file of the repository) declares its own breakpoints inside
  \<open>performUpdate\<close>, and the same chain of comparisons over the palette of \<open>getColor\<close>.
\<close>

definition breaks_markercluster :: "real list" where
  "breaks_markercluster = [0, 50, 100, 500, 1000, 5000, 10000]"

definition getColor_markercluster :: "jsnumber \<Rightarrow> jsstring" where
  "getColor_markercluster val =
     (if js_le val (Fin (breaks_markercluster ! 0)) then js ''rgba(0,0,0,0)''
      else if js_le val (Fin (breaks_markercluster ! 1)) then js ''#ffffcc''
      else if js_le val (Fin (breaks_markercluster ! 2)) then js ''#ffeda0''
      else if js_le val (Fin (breaks_markercluster ! 3)) then js ''#feb24c''
      else if js_le val (Fin (breaks_markercluster ! 4)) then js ''#fd8d3c''
      else if js_le val (Fin (breaks_markercluster ! 5)) then js ''#f03b20''
      else if js_le val (Fin (breaks_markercluster ! 6)) then js ''#bd0026''
      else js ''#800026'')"

text \<open>
  The classifier in the words of the specification: compare \<open>value \<le> b[i]\<close> in ascending
  order of \<open>i\<close>, the class is the first \<open>i\<close> that holds, and the highest class
  (the number of breakpoints) when none does. Class 0 is the transparent one.
\<close>

fun spec_classify :: "real list \<Rightarrow> jsnumber \<Rightarrow> nat" where
  "spec_classify [] v = 0"
| "spec_classify (b # bs) v = (if js_le v (Fin b) then 0 else Suc (spec_classify bs v))"

text \<open>The two palettes, by class.\<close>

definition marker_palette :: "jsstring list" where
  "marker_palette = [js ''rgba(0,0,0,0)'', js ''#ffffcc'', js ''#ffeda0'', js ''#feb24c'',
     js ''#fd8d3c'', js ''#f03b20'', js ''#bd0026'', js ''#800026'']"

definition choro_palette :: "jsstring list" where
  "choro_palette = [js ''rgba(0,0,0,0)'', js ''#4575b4'', js ''#74add1'', js ''#abd9e9'',
     js ''#fdae61'', js ''#f46d43'', js ''#d73027'', js ''#a50026'']"

section \<open>The query builder of \<open>performUpdate\<close>\<close>

definition VALID_ROUTES :: "jsstring list" where
  "VALID_ROUTES = [js ''I-26'', js ''I-40'', js ''I-77'', js ''I-85'', js ''I-95'']"

text \<open>\<open>raw.trim().replace(/\s+/g, "-")\<close>\<close>

definition normalized :: "jsstring \<Rightarrow> jsstring" where
  "normalized raw = replace_ws_dash (trim raw)"

text \<open>
  \<open>selectedInterstates\<close> is a \<open>Set\<close> of strings; \<open>Array.from\<close> lists it in insertion order,
  so it is a list here.
\<close>

definition safeInterstates :: "jsstring list \<Rightarrow> jsstring list" where
  "safeInterstates selectedInterstates =
     filter (\<lambda>norm. norm \<in> set VALID_ROUTES) (map normalized selectedInterstates)"

text \<open>The template literal that puts a route between single quotes (code unit 39).\<close>

definition quoted :: "jsstring \<Rightarrow> jsstring" where
  "quoted r = [39] @ r @ [39]"

definition in_predicate :: "jsstring list \<Rightarrow> jsstring" where
  "in_predicate routes = js ''RouteName IN ('' @ join (js '', '') (map quoted routes) @ js '')''"

definition build_where :: "jsstring list \<Rightarrow> jsstring" where
  "build_where selectedInterstates =
     (let safe = safeInterstates selectedInterstates
      in if length safe > 0 then in_predicate safe else js ''1=0'')"

section \<open>Cells, tables and filters supplied by the host\<close>

text \<open>
  A cell of a row (\<open>powerbi.PrimitiveValue\<close>, or nothing): \<open>undefined\<close>, \<open>null\<close>, a
  boolean, a number or a string. \<open>Date\<close> cells are left out: none of the five roles of
  \<open>capabilities.json\<close> admits a date column.
\<close>

datatype cell = CUndefined | CNull | CBool bool | CNum jsnumber | CStr jsstring

text \<open>\<open>c == null\<close>, the test behind \<open>??\<close>, \<open>?.\<close> and \<open>!= null\<close>.\<close>

definition nullish :: "cell \<Rightarrow> bool" where
  "nullish c = (c = CUndefined \<or> c = CNull)"

text \<open>\<open>r[i]\<close>: reading past the end of a row gives \<open>undefined\<close>.\<close>

definition cell_at :: "cell list \<Rightarrow> nat \<Rightarrow> cell" where
  "cell_at r i = (if i < length r then r ! i else CUndefined)"

text \<open>
  The numeric value of a string (\<open>StringToNumber\<close> of ECMAScript) is not modelled: the
  columns read with unary plus are numeric by \<open>capabilities.json\<close>. It is some function of
  the string, about which nothing is known here.
\<close>

definition StringToNumber :: "jsstring \<Rightarrow> jsnumber" where
  "StringToNumber = undefined"

text \<open>Unary plus, \<open>+c\<close>.\<close>

fun ToNumber :: "cell \<Rightarrow> jsnumber" where
  "ToNumber CUndefined = NaN"
| "ToNumber CNull = Fin 0"
| "ToNumber (CBool b) = (if b then Fin 1 else Fin 0)"
| "ToNumber (CNum n) = n"
| "ToNumber (CStr s) = StringToNumber s"

text \<open>The decimal digits of a natural number; code unit 48 is the digit 0.\<close>

function decimal :: "nat \<Rightarrow> jsstring" where
  "decimal n = (if n < 10 then [48 + n] else decimal (n div 10) @ [48 + n mod 10])"
  by pat_completeness auto
termination
  by (relation "measure id") auto

declare decimal.simps [simp del]

text \<open>
  The digits JavaScript prints for a finite number that is not an integer of absolute value
  below \<open>2^53\<close> (the shortest digit string that reads back as the same double, with an
  exponent from \<open>10^21\<close> on) are not modelled: some function of the number, about which
  nothing is known here.
\<close>

definition fraction_digits :: "real \<Rightarrow> jsstring" where
  "fraction_digits = undefined"

text \<open>
  \<open>Number.prototype.toString\<close>: an integer of absolute value below \<open>2^53\<close> prints as its
  decimal digits, with a minus sign (code unit 45) when it is negative.
\<close>

definition NumberToString :: "jsnumber \<Rightarrow> jsstring" where
  "NumberToString n =
     (case n of
        NaN \<Rightarrow> js ''NaN''
      | PInf \<Rightarrow> js ''Infinity''
      | NInf \<Rightarrow> js ''-Infinity''
      | Fin r \<Rightarrow>
          if r = of_int \<lfloor>r\<rfloor> \<and> \<bar>r\<bar> < 2 ^ 53
          then (if r < 0 then 45 # decimal (nat (- \<lfloor>r\<rfloor>)) else decimal (nat \<lfloor>r\<rfloor>))
          else fraction_digits r)"

text \<open>\<open>String(c)\<close>, and \<open>c.toString()\<close> where \<open>c\<close> is neither \<open>null\<close> nor \<open>undefined\<close>.\<close>

fun ToString :: "cell \<Rightarrow> jsstring" where
  "ToString CUndefined = js ''undefined''"
| "ToString CNull = js ''null''"
| "ToString (CBool b) = (if b then js ''true'' else js ''false'')"
| "ToString (CNum n) = NumberToString n"
| "ToString (CStr s) = s"

text \<open>
  A column of the table: the roles whose flag in \<open>c.roles\<close> is truthy, and the rest of its
  metadata (display name, type and so on), which only the comparison of tables reads.
\<close>

datatype role = Role_y | Role_x | Role_crashWeight | Role_countyFIPS | Role_interstate

record column =
  roles :: "role list"
  column_other :: jsstring

text \<open>
  \<open>dv.table\<close>: \<open>columns\<close> and \<open>rows\<close>, each possibly absent (the source reads them with
  \<open>?? []\<close>), and the remaining properties of the object, which only the comparison reads.
\<close>

record table =
  columns :: "column list option"
  rows :: "cell list list option"
  table_other :: jsstring

text \<open>\<open>xs.findIndex(p)\<close>; \<open>None\<close> stands for the result \<open>-1\<close>.\<close>

fun findIndex :: "('a \<Rightarrow> bool) \<Rightarrow> 'a list \<Rightarrow> nat option" where
  "findIndex p [] = None"
| "findIndex p (x # xs) = (if p x then Some 0 else map_option Suc (findIndex p xs))"

text \<open>The filters of \<open>options.jsonFilters\<close> (\<open>powerbi-models\<close>).\<close>

datatype FilterType =
  Advanced | Basic | Unknown | IncludeExclude | RelativeDate | TopN | Tuple | RelativeTime

text \<open>A filter target; \<open>target_column\<close> is its \<open>column\<close> when that is a string.\<close>

record filter_target =
  target_column :: "jsstring option"

datatype filter_targets = Single filter_target | Array "filter_target list"

record json_filter =
  filterType :: FilterType
  target :: filter_targets
  filter_values :: "cell list option"

text \<open>
  \<open>VisualUpdateOptions\<close>: the table of \<open>dataViews?.[0]\<close> (absent when there is no data view
  or it has no table), the property \<open>objects?.dataSelector?.selectedMetric\<close> of its
  metadata, \<open>jsonFilters\<close> (absent when it is \<open>undefined\<close>) and the viewport. The metadata
  of a data view and the target of a filter are present, as their types require.
\<close>

record update_options =
  dataview_table :: "table option"
  dataSelector_selectedMetric :: "jsstring option"
  jsonFilters :: "json_filter list option"
  viewport_width :: real
  viewport_height :: real

section \<open>Category selection\<close>

text \<open>\<open>set.add(x)\<close> on a \<open>Set\<close> kept in insertion order.\<close>

definition set_add :: "'a list \<Rightarrow> 'a \<Rightarrow> 'a list" where
  "set_add s x = (if x \<in> set s then s else s @ [x])"

text \<open>\<open>Array.isArray(basicFilter.target) ? basicFilter.target : [basicFilter.target]\<close>\<close>

fun targets :: "filter_targets \<Rightarrow> filter_target list" where
  "targets (Single t) = [t]"
| "targets (Array ts) = ts"

text \<open>\<open>(target as any).column?.toLowerCase?.() === "interstate"\<close>\<close>

definition targets_interstate :: "filter_target \<Rightarrow> bool" where
  "targets_interstate t = (map_option toLowerCase (target_column t) = Some (js ''interstate''))"

text \<open>\<open>basicFilter.values?.forEach(val => { if (val != null) add(String(val).trim()) })\<close>\<close>

definition add_values :: "cell list option \<Rightarrow> jsstring list \<Rightarrow> jsstring list" where
  "add_values vals selected =
     (case vals of
        None \<Rightarrow> selected
      | Some vs \<Rightarrow>
          fold (\<lambda>val s. if \<not> nullish val then set_add s (trim (ToString val)) else s) vs selected)"

text \<open>The body of the loop over \<open>jsonFilters\<close>.\<close>

definition add_filter :: "json_filter \<Rightarrow> jsstring list \<Rightarrow> jsstring list" where
  "add_filter f selected =
     (if filterType f = Basic
      then fold (\<lambda>t s. if targets_interstate t then add_values (filter_values f) s else s)
             (targets (target f)) selected
      else selected)"

text \<open>
  The fallback loop over the rows:
  \<open>val = row[interstateIdx]?.toString()?.trim(); if (val) add(val)\<close>.
\<close>

definition add_row_value :: "nat \<Rightarrow> cell list \<Rightarrow> jsstring list \<Rightarrow> jsstring list" where
  "add_row_value interstateIdx row selected =
     (if nullish (cell_at row interstateIdx) then selected
      else let val = trim (ToString (cell_at row interstateIdx))
           in if val \<noteq> [] then set_add selected val else selected)"

definition selectedInterstates ::
  "json_filter list \<Rightarrow> cell list list \<Rightarrow> nat \<Rightarrow> jsstring list" where
  "selectedInterstates fs rs interstateIdx =
     (let selected = fold add_filter fs []
      in if length selected = 0 then fold (add_row_value interstateIdx) rs selected
         else selected)"

section \<open>Aggregation by FIPS\<close>

text \<open>\<open>String(r[fipsIdx] ?? "")\<close>\<close>

definition fips_of :: "nat \<Rightarrow> cell list \<Rightarrow> jsstring" where
  "fips_of fipsIdx r = (if nullish (cell_at r fipsIdx) then [] else ToString (cell_at r fipsIdx))"

text \<open>\<open>+r[crashIdx] || 0\<close>\<close>

definition weight_of :: "nat \<Rightarrow> cell list \<Rightarrow> jsnumber" where
  "weight_of crashIdx r = or_zero (ToNumber (cell_at r crashIdx))"

text \<open>
  \<open>crashByFIPS\<close> is an object used as a map from strings to numbers. \<open>crashByFIPS[f] || 0\<close>
  is zero for a key that is absent and for a stored NaN. The column of role \<open>countyFIPS\<close>
  holds integers (\<open>capabilities.json\<close>), so a key is the printed form of a number or
  empty; a key that names a property of \<open>Object.prototype\<close>, such as \<open>constructor\<close>, does
  not arise and is not modelled.
\<close>

definition lookup_or_zero :: "(jsstring \<rightharpoonup> jsnumber) \<Rightarrow> jsstring \<Rightarrow> jsnumber" where
  "lookup_or_zero m f = (case m f of None \<Rightarrow> Fin 0 | Some n \<Rightarrow> or_zero n)"

definition aggregate_row ::
  "nat \<Rightarrow> nat \<Rightarrow> cell list \<Rightarrow> (jsstring \<rightharpoonup> jsnumber) \<Rightarrow> (jsstring \<rightharpoonup> jsnumber)" where
  "aggregate_row fipsIdx crashIdx r crashByFIPS =
     (let f = fips_of fipsIdx r; v = weight_of crashIdx r
      in crashByFIPS(f \<mapsto> js_add (lookup_or_zero crashByFIPS f) v))"

definition crashByFIPS :: "cell list list \<Rightarrow> nat \<Rightarrow> nat \<Rightarrow> (jsstring \<rightharpoonup> jsnumber)" where
  "crashByFIPS rs fipsIdx crashIdx = fold (aggregate_row fipsIdx crashIdx) rs Map.empty"

section \<open>The visual\<close>

text \<open>
  One county shape of \<open>countyLayers\<close>. The name \<open>fipsToCounty[Number(f)]\<close> of its key
  \<open>f\<close> and the validity of its bounds come from the reference data (\<open>./data\<close>);
  tooltip, fill colour and the number of hover listeners are what \<open>performUpdate\<close>
  changes.
\<close>

record county_layer =
  county_name :: "jsstring option"
  bounds_valid :: bool
  tooltip :: "jsstring option"
  fillColor :: "jsstring option"
  hover_listeners :: nat

text \<open>A marker registered with the cluster layer: position, \<open>data\<close> and \<open>weight\<close>.\<close>

record marker =
  lat :: jsnumber
  lon :: jsnumber
  data_fips :: jsstring
  data_value :: jsnumber
  weight :: jsnumber

text \<open>
  The layers a map or a layer control can hold: the cluster layer, the counties layer,
  and the feature layers made by \<open>LEsri.featureLayer\<close>, told apart by the order of their
  creation.
\<close>

datatype layer = PruneCluster | CountiesLayer | FeatureLayer nat

record feature_layer =
  layer_id :: nat
  where_clause :: jsstring

text \<open>What a call asks of the console, the timers and the map besides changing layers.\<close>

datatype effect =
    RequestResize real real
  | ConsoleWarn nat
  | ConsoleError
  | SetTimeout nat
  | FitBounds "jsstring list"
  | ProcessView
  | BringToBack
  | BringToFront nat

text \<open>
  The fields of the class \<open>Visual\<close> that \<open>performUpdate\<close> reads or writes, the layers
  attached to the map, the number of feature layers created so far, and the effects
  requested so far. \<open>layerControl\<close> holds the overlay entries of the control on the map.
\<close>

record visual =
  countyLayers :: "(jsstring \<times> county_layer) list"
  markers :: "marker list"
  hccsLayer :: "feature_layer option"
  hccsLayerAdded :: bool
  layerControl :: "(jsstring \<times> layer) list option"
  map_layers :: "layer list"
  selectedMetric :: jsstring
  previousTableData :: "table option"
  retryCount :: nat
  created_layers :: nat
  effects :: "effect list"

text \<open>
  The state the constructor leaves, for the county shapes of the reference data: cluster
  and counties layers on the map and in the control, no feature layer yet.
\<close>

definition constructed :: "(jsstring \<times> county_layer) list \<Rightarrow> visual" where
  "constructed counties =
     \<lparr> countyLayers = counties, markers = [], hccsLayer = None, hccsLayerAdded = False,
       layerControl = Some [(js ''Incidents'', PruneCluster), (js ''Counties'', CountiesLayer)],
       map_layers = [PruneCluster, CountiesLayer], selectedMetric = js ''crashes'',
       previousTableData = None, retryCount = 0, created_layers = 0, effects = [] \<rparr>"

definition resizeMap :: "visual \<Rightarrow> update_options \<Rightarrow> visual" where
  "resizeMap this opts =
     this\<lparr>effects := effects this @ [RequestResize (viewport_width opts) (viewport_height opts)]\<rparr>"

text \<open>\<open>(objs?.dataSelector?.selectedMetric as ...) || "crashes"\<close>\<close>

definition metric_or_crashes :: "jsstring option \<Rightarrow> jsstring" where
  "metric_or_crashes m = (case m of None \<Rightarrow> js ''crashes'' | Some x \<Rightarrow> if x = [] then js ''crashes'' else x)"

subsection \<open>County choropleth\<close>

text \<open>The tooltip text: the template literal spans two lines of the source.\<close>

definition county_tip :: "county_layer \<Rightarrow> jsnumber \<Rightarrow> jsstring" where
  "county_tip l val =
     js ''<strong>''
     @ (case county_name l of
          None \<Rightarrow> js ''Unknown County''
        | Some n \<Rightarrow> if n = [] then js ''Unknown County'' else n)
     @ js ''</strong><br/>'' @ [10] @ replicate 17 32
     @ js ''<strong>Total:</strong> '' @ NumberToString val"

definition style_county :: "(jsstring \<rightharpoonup> jsnumber) \<Rightarrow> jsstring \<times> county_layer \<Rightarrow> jsstring \<times> county_layer" where
  "style_county totals entry =
     (let f = fst entry; l = snd entry;
          val = lookup_or_zero totals f;
          tip = county_tip l val;
          l = (if tooltip l \<noteq> Some tip then l\<lparr>tooltip := Some tip\<rparr> else l);
          l = l\<lparr>fillColor := Some (getColor val)\<rparr>;
          l = l\<lparr>hover_listeners := hover_listeners l + 2\<rparr>
      in (f, l))"

definition style_counties :: "(jsstring \<rightharpoonup> jsnumber) \<Rightarrow> visual \<Rightarrow> visual" where
  "style_counties totals this = this\<lparr>countyLayers := map (style_county totals) (countyLayers this)\<rparr>"

subsection \<open>Zoom to the counties of the rows\<close>

text \<open>\<open>fips = String(r[fipsIdx] ?? "").padStart(5, "0"); if (fips) filteredFIPS.add(fips)\<close>\<close>

definition filteredFIPS :: "cell list list \<Rightarrow> nat \<Rightarrow> jsstring list" where
  "filteredFIPS rs fipsIdx =
     fold (\<lambda>r s. let fips = padStart 5 48 (fips_of fipsIdx r)
                  in if fips \<noteq> [] then set_add s fips else s) rs []"

text \<open>The codes whose county shape exists and has valid bounds.\<close>

definition countyBounds :: "(jsstring \<times> county_layer) list \<Rightarrow> jsstring list \<Rightarrow> jsstring list" where
  "countyBounds layers codes =
     filter (\<lambda>fips. case map_of layers fips of None \<Rightarrow> False | Some l \<Rightarrow> bounds_valid l) codes"

definition zoom_to_counties :: "cell list list \<Rightarrow> nat \<Rightarrow> visual \<Rightarrow> visual" where
  "zoom_to_counties rs fipsIdx this =
     (let bounds = countyBounds (countyLayers this) (filteredFIPS rs fipsIdx)
      in if length bounds > 0 then this\<lparr>effects := effects this @ [FitBounds bounds]\<rparr> else this)"

subsection \<open>Clusters\<close>

definition make_marker :: "nat \<Rightarrow> nat \<Rightarrow> nat \<Rightarrow> nat \<Rightarrow> cell list \<Rightarrow> marker option" where
  "make_marker latIdx lonIdx crashIdx fipsIdx r =
     (let la = ToNumber (cell_at r latIdx); lo = ToNumber (cell_at r lonIdx)
      in if isNaN la \<or> isNaN lo then None
         else let v = weight_of crashIdx r;
                  f = padStart 5 48 (fips_of fipsIdx r)
              in Some \<lparr> lat = la, lon = lo, data_fips = f, data_value = v, weight = v \<rparr>)"

definition rebuild_clusters :: "cell list list \<Rightarrow> nat \<Rightarrow> nat \<Rightarrow> nat \<Rightarrow> nat \<Rightarrow> visual \<Rightarrow> visual" where
  "rebuild_clusters rs latIdx lonIdx crashIdx fipsIdx this =
     this\<lparr>markers := List.map_filter (make_marker latIdx lonIdx crashIdx fipsIdx) rs,
          effects := effects this @ [ProcessView]\<rparr>"

subsection \<open>The remote feature layer\<close>

text \<open>
  Lines 359 to 372: a feature layer that is on the map is removed from it, and the
  control is then rebuilt with its two fixed overlays when the flag is set.
\<close>

definition remove_hccsLayer :: "visual \<Rightarrow> visual" where
  "remove_hccsLayer this =
     (case hccsLayer this of
        None \<Rightarrow> this
      | Some l \<Rightarrow>
          if FeatureLayer (layer_id l) \<in> set (map_layers this)
          then let this = this\<lparr>map_layers := removeAll (FeatureLayer (layer_id l)) (map_layers this)\<rparr>
               in if layerControl this \<noteq> None \<and> hccsLayerAdded this
                  then this\<lparr>layerControl :=
                              Some [(js ''Incidents'', PruneCluster), (js ''Counties'', CountiesLayer)],
                            hccsLayerAdded := False\<rparr>
                  else this
          else this)"

text \<open>\<open>this.hccsLayer = LEsri.featureLayer({url, where, ...}).addTo(this.map)\<close>\<close>

definition create_hccsLayer :: "jsstring \<Rightarrow> visual \<Rightarrow> visual" where
  "create_hccsLayer wh this =
     this\<lparr>hccsLayer := Some \<lparr> layer_id = created_layers this, where_clause = wh \<rparr>,
          map_layers := map_layers this @ [FeatureLayer (created_layers this)],
          created_layers := created_layers this + 1\<rparr>"

text \<open>Lines 444 to 448: \<open>addOverlay\<close> once, guarded by the flag.\<close>

definition add_overlay_once :: "visual \<Rightarrow> visual" where
  "add_overlay_once this =
     (case (layerControl this, hccsLayer this) of
        (Some entries, Some l) \<Rightarrow>
          if \<not> hccsLayerAdded this
          then this\<lparr>layerControl := Some (entries @ [(js ''High Crash Corridors'', FeatureLayer (layer_id l))]),
                    hccsLayerAdded := True\<rparr>
          else this
      | _ \<Rightarrow> this)"

definition enforce_z_order :: "visual \<Rightarrow> visual" where
  "enforce_z_order this =
     (let this = this\<lparr>effects := effects this @ [BringToBack]\<rparr>;
          this = (case hccsLayer this of
                    None \<Rightarrow> this
                  | Some l \<Rightarrow> this\<lparr>effects := effects this @ [BringToFront (layer_id l)]\<rparr>)
      in this\<lparr>effects := effects this @ [ProcessView]\<rparr>)"

subsection \<open>\<open>performUpdate\<close>\<close>

text \<open>How a call of \<open>performUpdate\<close> ends: one value for each \<open>return\<close> and for the exception.\<close>

datatype ending =
    NoTable
  | Unchanged
  | RetryScheduled
  | RetriesExhausted
  | TypeError
  | MissingData
  | Completed

text \<open>Lines 214 to 223, the branch taken when no column has the role \<open>interstate\<close>.\<close>

definition retry :: "visual \<Rightarrow> visual \<times> ending" where
  "retry this =
     (if retryCount this < 5
      then (this\<lparr>retryCount := retryCount this + 1,
                 effects := effects this @ [ConsoleWarn (retryCount this + 1), SetTimeout 500]\<rparr>,
            RetryScheduled)
      else (this\<lparr>effects := effects this @ [ConsoleError]\<rparr>, RetriesExhausted))"

text \<open>Lines 270 to 458, from the aggregation to the last \<open>ProcessView\<close>.\<close>

definition reconcile ::
  "cell list list \<Rightarrow> nat \<Rightarrow> nat \<Rightarrow> nat \<Rightarrow> nat \<Rightarrow> jsstring list \<Rightarrow> visual \<Rightarrow> visual" where
  "reconcile rs latIdx lonIdx crashIdx fipsIdx selected this =
     enforce_z_order
       (add_overlay_once
         (create_hccsLayer (build_where selected)
           (remove_hccsLayer
             (rebuild_clusters rs latIdx lonIdx crashIdx fipsIdx
               (zoom_to_counties rs fipsIdx
                 (style_counties (crashByFIPS rs fipsIdx crashIdx) this))))))"

definition has_role :: "role \<Rightarrow> column \<Rightarrow> bool" where
  "has_role r c = (r \<in> set (roles c))"

text \<open>
  \<open>jsonFilters\<close> that is \<open>undefined\<close> makes the \<open>for ... of\<close> loop throw a TypeError, after
  the retry counter was reset and before any layer is touched.
\<close>

definition performUpdate :: "visual \<Rightarrow> update_options \<Rightarrow> visual \<times> ending" where
  "performUpdate this opts =
     (case dataview_table opts of
        None \<Rightarrow> (this, NoTable)
      | Some tbl \<Rightarrow>
          if previousTableData this = Some tbl then (this, Unchanged)
          else
            let this = this\<lparr>previousTableData := Some tbl\<rparr>;
                this = resizeMap this opts;
                this = this\<lparr>selectedMetric := metric_or_crashes (dataSelector_selectedMetric opts)\<rparr>;
                rs = (case rows tbl of None \<Rightarrow> [] | Some x \<Rightarrow> x);
                cols = (case columns tbl of None \<Rightarrow> [] | Some x \<Rightarrow> x);
                latIdx = findIndex (has_role Role_y) cols;
                lonIdx = findIndex (has_role Role_x) cols;
                crashIdx = findIndex (has_role Role_crashWeight) cols;
                fipsIdx = findIndex (has_role Role_countyFIPS) cols;
                interstateIdx = findIndex (has_role Role_interstate) cols
            in case interstateIdx of
                 None \<Rightarrow> retry this
               | Some ii \<Rightarrow>
                   let this = this\<lparr>retryCount := 0\<rparr>
                   in case jsonFilters opts of
                        None \<Rightarrow> (this, TypeError)
                      | Some fs \<Rightarrow>
                          let selected = selectedInterstates fs rs ii
                          in case (latIdx, lonIdx, crashIdx, fipsIdx) of
                               (Some la, Some lo, Some cr, Some fi) \<Rightarrow>
                                 if length rs = 0 then (this, MissingData)
                                 else (reconcile rs la lo cr fi selected this, Completed)
                             | _ \<Rightarrow> (this, MissingData))"

text \<open>
  The callback of \<open>setTimeout\<close> calls \<open>performUpdate\<close> again with the same options. One
  cycle is the first call and the re-attempts it leads to, as long as each schedules the
  next; the fuel bounds the number of calls.
\<close>

fun run_cycle :: "nat \<Rightarrow> visual \<Rightarrow> update_options \<Rightarrow> (visual \<times> ending) option" where
  "run_cycle 0 this opts = None"
| "run_cycle (Suc fuel) this opts =
     (case performUpdate this opts of
        (this', RetryScheduled) \<Rightarrow> run_cycle fuel this' opts
      | r \<Rightarrow> Some r)"

subsection \<open>What happens to the visual between calls\<close>

text \<open>
  The layer control that the constructor and line 366 put on the map (\<open>L.control.layers\<close>
  of Leaflet, with \<open>collapsed: false\<close>) shows a checkbox for each overlay it lists. The
  user unticking the box of a listed overlay makes the control call \<open>map.removeLayer\<close> on
  that layer, ticking it \<open>map.addLayer\<close>; the entries of the control stay as they are.
  A layer the control does not list has no checkbox. This is the state that the test
  \<open>this.map.hasLayer(this.hccsLayer)\<close> of line 360 looks for.
\<close>

definition toggle_overlay :: "layer \<Rightarrow> visual \<Rightarrow> visual" where
  "toggle_overlay l this =
     (case layerControl this of
        None \<Rightarrow> this
      | Some entries \<Rightarrow>
          if l \<in> snd ` set entries
          then if l \<in> set (map_layers this)
               then this\<lparr>map_layers := removeAll l (map_layers this)\<rparr>
               else this\<lparr>map_layers := map_layers this @ [l]\<rparr>
          else this)"

text \<open>
  What can happen to a visual, one event at a time: a call of \<open>performUpdate\<close> with its
  options, whoever makes it (the debounced \<open>update\<close> of the host or the callback of a retry
  timer), or the user clicking the checkbox of an overlay.
\<close>

datatype event = Update update_options | Toggle layer

fun step :: "visual \<Rightarrow> event \<Rightarrow> visual" where
  "step this (Update opts) = fst (performUpdate this opts)"
| "step this (Toggle l) = toggle_overlay l this"

definition run :: "visual \<Rightarrow> event list \<Rightarrow> visual" where
  "run this es = foldl step this es"

section \<open>Notions used in the statements\<close>

text \<open>
  The state \<open>performUpdate\<close> has reached at line 212: the table remembered, the resize
  requested and the metric stored.
\<close>

definition prepared :: "visual \<Rightarrow> update_options \<Rightarrow> table \<Rightarrow> visual" where
  "prepared s opts t =
     (resizeMap (s\<lparr>previousTableData := Some t\<rparr>) opts)
       \<lparr>selectedMetric := metric_or_crashes (dataSelector_selectedMetric opts)\<rparr>"

text \<open>\<open>dv.table.rows ?? []\<close> and \<open>dv.table.columns ?? []\<close>\<close>

definition table_rows :: "table \<Rightarrow> cell list list" where
  "table_rows t = (case rows t of None \<Rightarrow> [] | Some x \<Rightarrow> x)"

definition table_columns :: "table \<Rightarrow> column list" where
  "table_columns t = (case columns t of None \<Rightarrow> [] | Some x \<Rightarrow> x)"

text \<open>
  The feature layers attached to the map, and the entries of the layer control that
  point to a feature layer.
\<close>

definition is_feature :: "layer \<Rightarrow> bool" where
  "is_feature l = (case l of FeatureLayer i \<Rightarrow> True | _ \<Rightarrow> False)"

definition attached_remote :: "visual \<Rightarrow> layer list" where
  "attached_remote s = filter is_feature (map_layers s)"

definition remote_entries :: "visual \<Rightarrow> (jsstring \<times> layer) list" where
  "remote_entries s =
     (case layerControl s of None \<Rightarrow> [] | Some es \<Rightarrow> filter (\<lambda>e. is_feature (snd e)) es)"

text \<open>
  The state of the remote layer between two calls as long as no checkbox is clicked: the
  layer of \<open>hccsLayer\<close>, when there is one, is the only feature layer on the map and has
  the only such entry of the control, and the flag says so. \<open>remote_detached\<close> is the
  state between lines 372 and 403, when no feature layer is attached or listed.
  \<open>selector_consistent\<close> is what also survives the clicks: the control lists one feature
  layer when the flag is set and none when it is not.
\<close>

definition remote_consistent :: "visual \<Rightarrow> bool" where
  "remote_consistent s =
     (layerControl s \<noteq> None \<and>
      (case hccsLayer s of
         None \<Rightarrow> attached_remote s = [] \<and> remote_entries s = [] \<and> \<not> hccsLayerAdded s
       | Some l \<Rightarrow>
           attached_remote s = [FeatureLayer (layer_id l)]
           \<and> remote_entries s = [(js ''High Crash Corridors'', FeatureLayer (layer_id l))]
           \<and> hccsLayerAdded s))"

definition remote_detached :: "visual \<Rightarrow> bool" where
  "remote_detached s =
     (layerControl s \<noteq> None \<and> attached_remote s = [] \<and> remote_entries s = []
      \<and> \<not> hccsLayerAdded s)"

definition selector_consistent :: "visual \<Rightarrow> bool" where
  "selector_consistent s =
     (layerControl s \<noteq> None
      \<and> length (remote_entries s) = (if hccsLayerAdded s then 1 else 0))"

text \<open>
  The end-to-end example of the specification: one row at latitude 35.5 and longitude
  -79.2 with FIPS code 37063 and weight 120, over reference data with that one county.
\<close>

definition example_counties :: "(jsstring \<times> county_layer) list" where
  "example_counties =
     [(js ''37063'', \<lparr> county_name = Some (js ''Durham''), bounds_valid = True, tooltip = None,
                       fillColor = None, hover_listeners = 0 \<rparr>)]"

definition example_columns :: "column list" where
  "example_columns =
     [\<lparr> roles = [Role_y], column_other = js ''Latitude'' \<rparr>,
      \<lparr> roles = [Role_x], column_other = js ''Longitude'' \<rparr>,
      \<lparr> roles = [Role_crashWeight], column_other = js ''Crashes'' \<rparr>,
      \<lparr> roles = [Role_countyFIPS], column_other = js ''FIPS'' \<rparr>,
      \<lparr> roles = [Role_interstate], column_other = js ''Interstate'' \<rparr>]"

definition example_table :: table where
  "example_table =
     \<lparr> columns = Some example_columns,
       rows = Some [[CNum (Fin 35.5), CNum (Fin (-79.2)), CNum (Fin 120), CNum (Fin 37063),
                     CStr (js ''I-40'')]],
       table_other = [] \<rparr>"

definition example_options :: update_options where
  "example_options =
     \<lparr> dataview_table = Some example_table, dataSelector_selectedMetric = Some (js ''crashes''),
       jsonFilters = Some [], viewport_width = 800, viewport_height = 600 \<rparr>"

text \<open>
  The number of passes over the layers so far: every pass, and nothing else, brings the
  counties layer to the back once.
\<close>

definition passes :: "visual \<Rightarrow> nat" where
  "passes s = length (filter (\<lambda>e. e = BringToBack) (effects s))"

text \<open>
  A second table, one in which no column has the role \<open>interstate\<close>, and (with its
  options) one that has all five columns and no rows.
\<close>

definition other_table :: table where
  "other_table =
     \<lparr> columns = Some example_columns,
       rows = Some [[CNum (Fin 35.2), CNum (Fin (-80.8)), CNum (Fin 7), CNum (Fin 37119),
                     CStr (js ''I 77'')]],
       table_other = [] \<rparr>"

definition no_interstate_table :: table where
  "no_interstate_table =
     \<lparr> columns = Some (take 4 example_columns),
       rows = Some [[CNum (Fin 35.5), CNum (Fin (-79.2)), CNum (Fin 120), CNum (Fin 37063)]],
       table_other = [] \<rparr>"

definition no_rows_table :: table where
  "no_rows_table = \<lparr> columns = Some example_columns, rows = Some [], table_other = [] \<rparr>"

definition no_rows_options :: update_options where
  "no_rows_options =
     \<lparr> dataview_table = Some no_rows_table, dataSelector_selectedMetric = None,
       jsonFilters = Some [], viewport_width = 800, viewport_height = 600 \<rparr>"

text \<open>Options that carry the second table, and options that carry the table without the role.\<close>

definition other_options :: update_options where
  "other_options =
     \<lparr> dataview_table = Some other_table, dataSelector_selectedMetric = Some (js ''persons''),
       jsonFilters = Some [], viewport_width = 800, viewport_height = 600 \<rparr>"

definition no_interstate_options :: update_options where
  "no_interstate_options =
     \<lparr> dataview_table = Some no_interstate_table, dataSelector_selectedMetric = None,
       jsonFilters = Some [], viewport_width = 800, viewport_height = 600 \<rparr>"

text \<open>
  The value of a finite number, and the test that a number is a finite integer. A batch has
  exact weights when every weight \<open>+r[crashIdx] || 0\<close> is an integer and the absolute
  values sum to at most \<open>2^53\<close>: sums of such doubles are exact in any order.
  \<open>total_for\<close> is the sum of the weights of the rows with a given key.
\<close>

definition finite_value :: "jsnumber \<Rightarrow> real" where
  "finite_value n = (case n of Fin r \<Rightarrow> r | _ \<Rightarrow> 0)"

definition is_integer :: "jsnumber \<Rightarrow> bool" where
  "is_integer n = (case n of Fin r \<Rightarrow> r = of_int \<lfloor>r\<rfloor> | _ \<Rightarrow> False)"

definition exact_weights :: "cell list list \<Rightarrow> nat \<Rightarrow> bool" where
  "exact_weights rs crashIdx =
     (list_all (\<lambda>r. is_integer (weight_of crashIdx r)) rs
      \<and> (\<Sum>r\<leftarrow>rs. \<bar>finite_value (weight_of crashIdx r)\<bar>) \<le> 2 ^ 53)"

definition total_for :: "cell list list \<Rightarrow> nat \<Rightarrow> nat \<Rightarrow> jsstring \<Rightarrow> real" where
  "total_for rs fipsIdx crashIdx k =
     (\<Sum>r\<leftarrow>filter (\<lambda>r. fips_of fipsIdx r = k) rs. finite_value (weight_of crashIdx r))"





text \<open>The code units of the longest predicate the query builder can emit, and of \<open>1=0\<close>.\<close>

definition where_alphabet :: "nat set" where
  "where_alphabet = set (js ''RouteName IN ('I-26', 'I-40', 'I-77', 'I-85', 'I-95') 1=0'')"

section \<open>Properties\<close>

subsection \<open>Strings and numbers\<close>

lemma js_le_NaN_right [simp]: "js_le a NaN = False"
  by (cases a) simp_all

lemma safeInterstates_allowed: "set (safeInterstates sel) \<subseteq> set VALID_ROUTES"
  by (auto simp: safeInterstates_def)

lemma safeInterstates_from_selection: "set (safeInterstates sel) \<subseteq> normalized ` set sel"
  by (auto simp: safeInterstates_def)

subsection \<open>Classification\<close>

lemma getColor_classify: "getColor v = marker_palette ! spec_classify breaks v"
  by (cases v) (simp_all add: getColor_def marker_palette_def breaks_def)

lemma getChoro_classify: "getChoro v = choro_palette ! spec_classify breaks v"
  by (cases v) (simp_all add: getChoro_def choro_palette_def breaks_def)

lemma getColor_markercluster_classify:
  "getColor_markercluster v = marker_palette ! spec_classify breaks_markercluster v"
  by (cases v) (simp_all add: getColor_markercluster_def marker_palette_def breaks_markercluster_def)

lemma spec_classify_bound: "spec_classify bs v \<le> length bs"
  by (induction bs) auto

lemma classify_breaks_examples:
  "map (spec_classify breaks) [Fin 0, Fin 50, Fin 51, Fin 10000, Fin 10001] = [0, 2, 3, 7, 7]"
  by (simp add: breaks_def)

lemma classify_markercluster_examples:
  "map (spec_classify breaks_markercluster) [Fin 0, Fin 50, Fin 51, Fin 10000, Fin 10001]
     = [0, 1, 2, 6, 7]"
  by (simp add: breaks_markercluster_def)

text \<open>
  Claim C2, as stated, promises class 1 for the input 50, class 2 for 51 and class 7 for
  10000. \<open>getColor\<close> and \<open>getChoro\<close> of \<open>src/visual.ts\<close> compare with the breakpoints
  0, 10, 50, 100, 200, 500, 1000 and put 50 in class 2 and 51 in class 3. With the
  breakpoints 0, 50, 100, 500, 1000, 5000, 10000 of the claim (the markercluster version) the
  input 10000 satisfies \<open>10000 \<le> b[6]\<close> and falls in class 6, whose colour is
  \<open>#bd0026\<close>, not in class 7.
\<close>

theorem classification_examples_counterexample:
  "getColor (Fin 50) = marker_palette ! 2 \<and> getChoro (Fin 50) = choro_palette ! 2
   \<and> getColor (Fin 50) \<noteq> marker_palette ! 1 \<and> getChoro (Fin 50) \<noteq> choro_palette ! 1
   \<and> getColor (Fin 51) = marker_palette ! 3 \<and> getColor (Fin 51) \<noteq> marker_palette ! 2
   \<and> spec_classify breaks_markercluster (Fin 10000) = 6
   \<and> getColor_markercluster (Fin 10000) = js ''#bd0026''
   \<and> getColor_markercluster (Fin 10000) \<noteq> marker_palette ! 7"
  by (simp add: getColor_def getChoro_def getColor_markercluster_def breaks_def
      breaks_markercluster_def marker_palette_def choro_palette_def js_def)

text \<open>
  Claim C2, amended. The classification is total: every number, NaN and the infinities
  included, gets exactly one of the 8 classes 0 (transparent) to 7, namely the first
  \<open>i\<close> with \<open>value \<le> b[i]\<close> in ascending order, and class 7 when no comparison holds;
  \<open>getColor\<close> and \<open>getChoro\<close> return the colour of that class in their palette. With
  their breakpoints 0, 10, 50, 100, 200, 500, 1000 the inputs 0, 50, 51, 10000, 10001 fall
  in the classes 0, 2, 3, 7, 7; with the breakpoints 0, 50, 100, 500, 1000, 5000, 10000
  of the markercluster version they fall in the classes 0, 1, 2, 6, 7. A value equal to a
  breakpoint belongs to the lower class.
\<close>

theorem classification_total:
  "getColor v = marker_palette ! spec_classify breaks v
   \<and> getChoro v = choro_palette ! spec_classify breaks v
   \<and> getColor_markercluster v = marker_palette ! spec_classify breaks_markercluster v
   \<and> spec_classify breaks v < 8 \<and> spec_classify breaks_markercluster v < 8
   \<and> length marker_palette = 8 \<and> length choro_palette = 8
   \<and> map (spec_classify breaks) [Fin 0, Fin 50, Fin 51, Fin 10000, Fin 10001] = [0, 2, 3, 7, 7]
   \<and> map (spec_classify breaks_markercluster) [Fin 0, Fin 50, Fin 51, Fin 10000, Fin 10001]
       = [0, 1, 2, 6, 7]
   \<and> spec_classify breaks NaN = 7 \<and> spec_classify breaks PInf = 7
   \<and> spec_classify breaks NInf = 0"
proof -
  have "spec_classify breaks v \<le> length breaks"
    and "spec_classify breaks_markercluster v \<le> length breaks_markercluster"
    by (rule spec_classify_bound)+
  then have "spec_classify breaks v < 8" and "spec_classify breaks_markercluster v < 8"
    by (simp_all add: breaks_def breaks_markercluster_def)
  moreover have "length marker_palette = 8" and "length choro_palette = 8"
    by (simp_all add: marker_palette_def choro_palette_def)
  moreover have "spec_classify breaks NaN = 7" and "spec_classify breaks PInf = 7"
    and "spec_classify breaks NInf = 0"
    by (simp_all add: breaks_def)
  ultimately show ?thesis
    using getColor_classify [of v] getChoro_classify [of v]
      getColor_markercluster_classify [of v]
      classify_breaks_examples classify_markercluster_examples
    by simp
qed

theorem classification_total_witness:
  "getColor (Fin 120) = js ''#fd8d3c'' \<and> getChoro (Fin 120) = js ''#fdae61''
   \<and> spec_classify breaks (Fin 120) = 4
   \<and> getColor_markercluster (Fin 120) = js ''#feb24c''
   \<and> spec_classify breaks_markercluster (Fin 120) = 3"
proof -
  have c: "spec_classify breaks (Fin 120) = 4"
    and m: "spec_classify breaks_markercluster (Fin 120) = 3"
    by (simp_all add: breaks_def breaks_markercluster_def)
  show ?thesis
    using classification_total [of "Fin 120"]
    by (simp add: c m marker_palette_def choro_palette_def)
qed

subsection \<open>Query builder\<close>

lemma build_where_cases:
  "build_where sel =
     (if safeInterstates sel = [] then js ''1=0'' else in_predicate (safeInterstates sel))"
  by (simp add: build_where_def Let_def)

lemma set_join: "set (join sep xs) \<subseteq> set sep \<union> \<Union> (set ` set xs)"
  by (induction sep xs rule: join.induct) auto

lemma VALID_ROUTES_alphabet: "t \<in> set VALID_ROUTES \<Longrightarrow> set t \<subseteq> where_alphabet"
  by (auto simp: VALID_ROUTES_def where_alphabet_def js_def)

lemma in_predicate_alphabet:
  assumes "set ts \<subseteq> set VALID_ROUTES"
  shows "set (in_predicate ts) \<subseteq> where_alphabet"
proof -
  have q: "\<Union> (set ` set (map quoted ts)) \<subseteq> where_alphabet"
  proof -
    have "39 \<in> where_alphabet" by (simp add: where_alphabet_def js_def)
    with assms show ?thesis
      using VALID_ROUTES_alphabet by (fastforce simp: quoted_def)
  qed
  have "set (js '', '') \<subseteq> where_alphabet"
    by (simp add: where_alphabet_def js_def)
  with q set_join [of "js '', ''" "map quoted ts"]
  have "set (join (js '', '') (map quoted ts)) \<subseteq> where_alphabet"
    by blast
  moreover have "set (js ''RouteName IN ('') \<subseteq> where_alphabet"
    and "set (js '')'') \<subseteq> where_alphabet"
    by (simp_all add: where_alphabet_def js_def)
  ultimately show ?thesis by (simp add: in_predicate_def)
qed

lemma build_where_alphabet: "set (build_where sel) \<subseteq> where_alphabet"
proof (cases "safeInterstates sel = []")
  case True
  then show ?thesis by (simp add: build_where_cases where_alphabet_def js_def)
next
  case False
  then show ?thesis
    by (simp add: build_where_cases in_predicate_alphabet safeInterstates_allowed)
qed

text \<open>
  Claim C1. Whatever strings are selected, the predicate is built from a list of tokens
  that are all members of the allow-list I-26, I-40, I-77, I-85, I-95 (compared code unit
  by code unit, so case-sensitively) and are each the normalisation (trimmed, every run
  of whitespace turned into one dash) of a selected string; when no candidate survives
  the predicate is \<open>1=0\<close>, and otherwise it is \<open>RouteName IN (...)\<close> over the quoted
  survivors, so it is never unrestricted. Every code unit of the predicate occurs in the
  text \<open>RouteName IN ('I-26', 'I-40', 'I-77', 'I-85', 'I-95') 1=0\<close>: no character of a
  selected string reaches it unless it belongs to an allow-listed route.
\<close>

theorem where_only_allow_listed:
  "\<exists>tokens.
     set tokens \<subseteq> set VALID_ROUTES
     \<and> set tokens \<subseteq> normalized ` set sel
     \<and> tokens = filter (\<lambda>t. t \<in> set VALID_ROUTES) (map normalized sel)
     \<and> build_where sel = (if tokens = [] then js ''1=0'' else in_predicate tokens)
     \<and> set (build_where sel) \<subseteq> where_alphabet"
proof (intro exI conjI)
  show "set (safeInterstates sel) \<subseteq> set VALID_ROUTES"
    by (rule safeInterstates_allowed)
  show "set (safeInterstates sel) \<subseteq> normalized ` set sel"
    by (rule safeInterstates_from_selection)
  show "safeInterstates sel = filter (\<lambda>t. t \<in> set VALID_ROUTES) (map normalized sel)"
    by (simp add: safeInterstates_def)
  show "build_where sel =
      (if safeInterstates sel = [] then js ''1=0'' else in_predicate (safeInterstates sel))"
    by (rule build_where_cases)
  show "set (build_where sel) \<subseteq> where_alphabet"
    by (rule build_where_alphabet)
qed

lemma normalized_examples:
  "normalized (js ''I-40'') = js ''I-40''"
  "normalized (js ''DROP TABLE'') = js ''DROP-TABLE''"
  "normalized (js '' i-40 '') = js ''i-40''"
  "normalized (js ''  I   95 '') = js ''I-95''"
  by (simp_all add: normalized_def trim_def js_def isWhiteSpace_def)

lemma build_where_example:
  "build_where [js ''I-40'', js ''DROP TABLE'', js '' i-40 ''] = js ''RouteName IN ('I-40')''"
  by (simp add: build_where_cases safeInterstates_def normalized_examples VALID_ROUTES_def
      in_predicate_def quoted_def)
    (simp add: js_def)

theorem where_only_allow_listed_witness:
  "build_where [js ''I-40'', js ''DROP TABLE'', js '' i-40 ''] = js ''RouteName IN ('I-40')''
   \<and> build_where [js ''DROP TABLE'', js '' i-40 ''] = js ''1=0''
   \<and> build_where [] = js ''1=0''"
proof -
  have s1: "filter (\<lambda>t. t \<in> set VALID_ROUTES)
        (map normalized [js ''I-40'', js ''DROP TABLE'', js '' i-40 '']) = [js ''I-40'']"
    by (simp add: normalized_examples VALID_ROUTES_def) (simp add: js_def)
  have s2: "filter (\<lambda>t. t \<in> set VALID_ROUTES)
        (map normalized [js ''DROP TABLE'', js '' i-40 '']) = []"
    by (simp add: normalized_examples VALID_ROUTES_def) (simp add: js_def)
  have p: "in_predicate [js ''I-40''] = js ''RouteName IN ('I-40')''"
    by (simp add: in_predicate_def quoted_def js_def)
  from where_only_allow_listed [of "[js ''I-40'', js ''DROP TABLE'', js '' i-40 '']"]
  obtain t1 where t1: "t1 = filter (\<lambda>t. t \<in> set VALID_ROUTES)
        (map normalized [js ''I-40'', js ''DROP TABLE'', js '' i-40 ''])"
    and w1: "build_where [js ''I-40'', js ''DROP TABLE'', js '' i-40 '']
        = (if t1 = [] then js ''1=0'' else in_predicate t1)"
    by blast
  have "t1 = [js ''I-40'']"
    unfolding t1 by (rule s1)
  with w1 p have a: "build_where [js ''I-40'', js ''DROP TABLE'', js '' i-40 '']
      = js ''RouteName IN ('I-40')''"
    by simp
  from where_only_allow_listed [of "[js ''DROP TABLE'', js '' i-40 '']"]
  obtain t2 where t2: "t2 = filter (\<lambda>t. t \<in> set VALID_ROUTES)
        (map normalized [js ''DROP TABLE'', js '' i-40 ''])"
    and w2: "build_where [js ''DROP TABLE'', js '' i-40 '']
        = (if t2 = [] then js ''1=0'' else in_predicate t2)"
    by blast
  have "t2 = []"
    unfolding t2 by (rule s2)
  with w2 have b: "build_where [js ''DROP TABLE'', js '' i-40 ''] = js ''1=0''"
    by simp
  from where_only_allow_listed [of "[]"]
  have c: "build_where [] = js ''1=0''"
    by auto
  from a b c show ?thesis by simp
qed

subsection \<open>The ways through \<open>performUpdate\<close>\<close>

lemma performUpdate_NoTable:
  "dataview_table opts = None \<Longrightarrow> performUpdate s opts = (s, NoTable)"
  by (simp add: performUpdate_def)

lemma performUpdate_Unchanged:
  "dataview_table opts = Some t \<Longrightarrow> previousTableData s = Some t \<Longrightarrow>
   performUpdate s opts = (s, Unchanged)"
  by (simp add: performUpdate_def)

lemma performUpdate_retry:
  "dataview_table opts = Some t \<Longrightarrow> previousTableData s \<noteq> Some t \<Longrightarrow>
   findIndex (has_role Role_interstate) (table_columns t) = None \<Longrightarrow>
   performUpdate s opts = retry (prepared s opts t)"
  by (simp add: performUpdate_def prepared_def table_columns_def Let_def)

lemma performUpdate_TypeError:
  "dataview_table opts = Some t \<Longrightarrow> previousTableData s \<noteq> Some t \<Longrightarrow>
   findIndex (has_role Role_interstate) (table_columns t) = Some ii \<Longrightarrow>
   jsonFilters opts = None \<Longrightarrow>
   performUpdate s opts = ((prepared s opts t)\<lparr>retryCount := 0\<rparr>, TypeError)"
  by (simp add: performUpdate_def prepared_def table_columns_def Let_def)

lemma performUpdate_Completed:
  "dataview_table opts = Some t \<Longrightarrow> previousTableData s \<noteq> Some t \<Longrightarrow>
   findIndex (has_role Role_interstate) (table_columns t) = Some ii \<Longrightarrow>
   jsonFilters opts = Some fs \<Longrightarrow>
   findIndex (has_role Role_y) (table_columns t) = Some la \<Longrightarrow>
   findIndex (has_role Role_x) (table_columns t) = Some lo \<Longrightarrow>
   findIndex (has_role Role_crashWeight) (table_columns t) = Some cr \<Longrightarrow>
   findIndex (has_role Role_countyFIPS) (table_columns t) = Some fi \<Longrightarrow>
   table_rows t \<noteq> [] \<Longrightarrow>
   performUpdate s opts =
     (reconcile (table_rows t) la lo cr fi (selectedInterstates fs (table_rows t) ii)
        ((prepared s opts t)\<lparr>retryCount := 0\<rparr>), Completed)"
  by (simp add: performUpdate_def prepared_def table_columns_def table_rows_def Let_def)

lemma performUpdate_MissingData:
  "dataview_table opts = Some t \<Longrightarrow> previousTableData s \<noteq> Some t \<Longrightarrow>
   findIndex (has_role Role_interstate) (table_columns t) = Some ii \<Longrightarrow>
   jsonFilters opts = Some fs \<Longrightarrow>
   findIndex (has_role Role_y) (table_columns t) = None
   \<or> findIndex (has_role Role_x) (table_columns t) = None
   \<or> findIndex (has_role Role_crashWeight) (table_columns t) = None
   \<or> findIndex (has_role Role_countyFIPS) (table_columns t) = None
   \<or> table_rows t = [] \<Longrightarrow>
   performUpdate s opts = ((prepared s opts t)\<lparr>retryCount := 0\<rparr>, MissingData)"
  by (auto simp: performUpdate_def prepared_def table_columns_def table_rows_def Let_def
      split: option.splits)

lemma performUpdate_endings:
  assumes "dataview_table opts = Some t" and "previousTableData s \<noteq> Some t"
  obtains
    (Retry) "performUpdate s opts = retry (prepared s opts t)"
  | (Threw) "performUpdate s opts = ((prepared s opts t)\<lparr>retryCount := 0\<rparr>, TypeError)"
  | (Missing) "performUpdate s opts = ((prepared s opts t)\<lparr>retryCount := 0\<rparr>, MissingData)"
  | (Done) rs la lo cr fi sel where
      "performUpdate s opts =
         (reconcile rs la lo cr fi sel ((prepared s opts t)\<lparr>retryCount := 0\<rparr>), Completed)"
proof (cases "findIndex (has_role Role_interstate) (table_columns t)")
  case None
  with assms Retry show ?thesis by (simp add: performUpdate_retry)
next
  case (Some ii)
  show ?thesis
  proof (cases "jsonFilters opts")
    case None
    with assms Some Threw show ?thesis by (simp add: performUpdate_TypeError)
  next
    case fs: (Some fs)
    show ?thesis
    proof (cases "findIndex (has_role Role_y) (table_columns t) = None
        \<or> findIndex (has_role Role_x) (table_columns t) = None
        \<or> findIndex (has_role Role_crashWeight) (table_columns t) = None
        \<or> findIndex (has_role Role_countyFIPS) (table_columns t) = None
        \<or> table_rows t = []")
      case True
      show ?thesis
        by (rule Missing) (rule performUpdate_MissingData [OF assms Some fs True])
    next
      case False
      then obtain la lo cr fi where idx:
        "findIndex (has_role Role_y) (table_columns t) = Some la"
        "findIndex (has_role Role_x) (table_columns t) = Some lo"
        "findIndex (has_role Role_crashWeight) (table_columns t) = Some cr"
        "findIndex (has_role Role_countyFIPS) (table_columns t) = Some fi"
        "table_rows t \<noteq> []"
        by auto
      show ?thesis
        by (rule Done) (rule performUpdate_Completed [OF assms Some fs idx])
    qed
  qed
qed

subsection \<open>Frame lemmas\<close>

lemma prepared_fields [simp]:
  "previousTableData (prepared s opts t) = Some t"
  "retryCount (prepared s opts t) = retryCount s"
  "hccsLayer (prepared s opts t) = hccsLayer s"
  "hccsLayerAdded (prepared s opts t) = hccsLayerAdded s"
  "layerControl (prepared s opts t) = layerControl s"
  "map_layers (prepared s opts t) = map_layers s"
  "created_layers (prepared s opts t) = created_layers s"
  by (simp_all add: prepared_def resizeMap_def)

lemma retry_fields [simp]:
  "previousTableData (fst (retry s)) = previousTableData s"
  "hccsLayer (fst (retry s)) = hccsLayer s"
  "hccsLayerAdded (fst (retry s)) = hccsLayerAdded s"
  "layerControl (fst (retry s)) = layerControl s"
  "map_layers (fst (retry s)) = map_layers s"
  "created_layers (fst (retry s)) = created_layers s"
  by (simp_all add: retry_def)

lemma style_counties_fields [simp]:
  "previousTableData (style_counties m s) = previousTableData s"
  "retryCount (style_counties m s) = retryCount s"
  "hccsLayer (style_counties m s) = hccsLayer s"
  "hccsLayerAdded (style_counties m s) = hccsLayerAdded s"
  "layerControl (style_counties m s) = layerControl s"
  "map_layers (style_counties m s) = map_layers s"
  "created_layers (style_counties m s) = created_layers s"
  by (simp_all add: style_counties_def)

lemma zoom_to_counties_fields [simp]:
  "previousTableData (zoom_to_counties rs fi s) = previousTableData s"
  "retryCount (zoom_to_counties rs fi s) = retryCount s"
  "hccsLayer (zoom_to_counties rs fi s) = hccsLayer s"
  "hccsLayerAdded (zoom_to_counties rs fi s) = hccsLayerAdded s"
  "layerControl (zoom_to_counties rs fi s) = layerControl s"
  "map_layers (zoom_to_counties rs fi s) = map_layers s"
  "created_layers (zoom_to_counties rs fi s) = created_layers s"
  by (simp_all add: zoom_to_counties_def Let_def)

lemma rebuild_clusters_fields [simp]:
  "previousTableData (rebuild_clusters rs la lo cr fi s) = previousTableData s"
  "retryCount (rebuild_clusters rs la lo cr fi s) = retryCount s"
  "hccsLayer (rebuild_clusters rs la lo cr fi s) = hccsLayer s"
  "hccsLayerAdded (rebuild_clusters rs la lo cr fi s) = hccsLayerAdded s"
  "layerControl (rebuild_clusters rs la lo cr fi s) = layerControl s"
  "map_layers (rebuild_clusters rs la lo cr fi s) = map_layers s"
  "created_layers (rebuild_clusters rs la lo cr fi s) = created_layers s"
  by (simp_all add: rebuild_clusters_def)

lemma remove_hccsLayer_fields [simp]:
  "previousTableData (remove_hccsLayer s) = previousTableData s"
  "retryCount (remove_hccsLayer s) = retryCount s"
  "hccsLayer (remove_hccsLayer s) = hccsLayer s"
  "created_layers (remove_hccsLayer s) = created_layers s"
  by (simp_all add: remove_hccsLayer_def Let_def split: option.split)

lemma create_hccsLayer_fields [simp]:
  "previousTableData (create_hccsLayer w s) = previousTableData s"
  "retryCount (create_hccsLayer w s) = retryCount s"
  "hccsLayerAdded (create_hccsLayer w s) = hccsLayerAdded s"
  "layerControl (create_hccsLayer w s) = layerControl s"
  by (simp_all add: create_hccsLayer_def)

lemma add_overlay_once_fields [simp]:
  "previousTableData (add_overlay_once s) = previousTableData s"
  "retryCount (add_overlay_once s) = retryCount s"
  "hccsLayer (add_overlay_once s) = hccsLayer s"
  "map_layers (add_overlay_once s) = map_layers s"
  "created_layers (add_overlay_once s) = created_layers s"
  by (simp_all add: add_overlay_once_def split: option.split)

lemma enforce_z_order_fields [simp]:
  "previousTableData (enforce_z_order s) = previousTableData s"
  "retryCount (enforce_z_order s) = retryCount s"
  "hccsLayer (enforce_z_order s) = hccsLayer s"
  "hccsLayerAdded (enforce_z_order s) = hccsLayerAdded s"
  "layerControl (enforce_z_order s) = layerControl s"
  "map_layers (enforce_z_order s) = map_layers s"
  "created_layers (enforce_z_order s) = created_layers s"
  by (simp_all add: enforce_z_order_def Let_def split: option.split)

lemma reconcile_fields [simp]:
  "previousTableData (reconcile rs la lo cr fi sel s) = previousTableData s"
  "retryCount (reconcile rs la lo cr fi sel s) = retryCount s"
  by (simp_all add: reconcile_def)

lemma performUpdate_previousTableData:
  assumes "dataview_table opts = Some t"
  shows "previousTableData (fst (performUpdate s opts)) = Some t"
proof (cases "previousTableData s = Some t")
  case True
  with assms show ?thesis by (simp add: performUpdate_Unchanged)
next
  case False
  with assms show ?thesis
    by (cases rule: performUpdate_endings [of opts t s]) simp_all
qed

lemma performUpdate_repeat:
  assumes "dataview_table opts' = dataview_table opts"
  shows "performUpdate (fst (performUpdate s opts)) opts'
         = (fst (performUpdate s opts), if dataview_table opts = None then NoTable else Unchanged)"
proof (cases "dataview_table opts")
  case None
  with assms show ?thesis by (simp add: performUpdate_NoTable)
next
  case (Some t)
  then have "previousTableData (fst (performUpdate s opts)) = Some t"
    by (rule performUpdate_previousTableData)
  with Some assms show ?thesis by (simp add: performUpdate_Unchanged)
qed

subsection \<open>The stored metric\<close>

lemma prepared_metric:
  "(prepared (s\<lparr>selectedMetric := m\<rparr>) (opts\<lparr>dataSelector_selectedMetric := x\<rparr>) t)
     \<lparr>selectedMetric := c\<rparr> = (prepared s opts t)\<lparr>selectedMetric := c\<rparr>"
  by (simp add: prepared_def resizeMap_def)

lemma retry_metric:
  "retry (s\<lparr>selectedMetric := m\<rparr>) = (fst (retry s)\<lparr>selectedMetric := m\<rparr>, snd (retry s))"
  by (simp add: retry_def)

lemma style_counties_metric:
  "style_counties tot (s\<lparr>selectedMetric := m\<rparr>) = (style_counties tot s)\<lparr>selectedMetric := m\<rparr>"
  by (simp add: style_counties_def)

lemma zoom_to_counties_metric:
  "zoom_to_counties rs fi (s\<lparr>selectedMetric := m\<rparr>) = (zoom_to_counties rs fi s)\<lparr>selectedMetric := m\<rparr>"
  by (simp add: zoom_to_counties_def Let_def)

lemma rebuild_clusters_metric:
  "rebuild_clusters rs la lo cr fi (s\<lparr>selectedMetric := m\<rparr>)
     = (rebuild_clusters rs la lo cr fi s)\<lparr>selectedMetric := m\<rparr>"
  by (simp add: rebuild_clusters_def)

lemma remove_hccsLayer_metric:
  "remove_hccsLayer (s\<lparr>selectedMetric := m\<rparr>) = (remove_hccsLayer s)\<lparr>selectedMetric := m\<rparr>"
  by (simp add: remove_hccsLayer_def Let_def split: option.split)

lemma create_hccsLayer_metric:
  "create_hccsLayer w (s\<lparr>selectedMetric := m\<rparr>) = (create_hccsLayer w s)\<lparr>selectedMetric := m\<rparr>"
  by (simp add: create_hccsLayer_def)

lemma add_overlay_once_metric:
  "add_overlay_once (s\<lparr>selectedMetric := m\<rparr>) = (add_overlay_once s)\<lparr>selectedMetric := m\<rparr>"
  by (simp add: add_overlay_once_def split: option.split)

lemma enforce_z_order_metric:
  "enforce_z_order (s\<lparr>selectedMetric := m\<rparr>) = (enforce_z_order s)\<lparr>selectedMetric := m\<rparr>"
  by (simp add: enforce_z_order_def Let_def split: option.split)

lemma reconcile_metric:
  "reconcile rs la lo cr fi sel (s\<lparr>selectedMetric := m\<rparr>)
     = (reconcile rs la lo cr fi sel s)\<lparr>selectedMetric := m\<rparr>"
  by (simp add: reconcile_def style_counties_metric zoom_to_counties_metric
      rebuild_clusters_metric remove_hccsLayer_metric create_hccsLayer_metric
      add_overlay_once_metric enforce_z_order_metric)

lemma metric_swap_retryCount:
  "s\<lparr>selectedMetric := a, retryCount := n\<rparr> = s\<lparr>retryCount := n, selectedMetric := a\<rparr>"
  by simp

lemma same_up_to_metric:
  assumes "p'\<lparr>selectedMetric := c\<rparr> = p\<lparr>selectedMetric := c\<rparr>"
  shows "p' = p\<lparr>selectedMetric := selectedMetric p'\<rparr>"
proof -
  have "p' = p'\<lparr>selectedMetric := c, selectedMetric := selectedMetric p'\<rparr>" by simp
  also have "\<dots> = p\<lparr>selectedMetric := c, selectedMetric := selectedMetric p'\<rparr>"
    using assms by simp
  finally show ?thesis by simp
qed

text \<open>
  Claim C10. Two calls that start from states equal up to the stored metric, with
  options equal up to \<open>dataSelector.selectedMetric\<close>, end the same way and leave states
  that are equal up to the stored metric: county tooltips and fill colours, markers, the
  feature layer and its \<open>where\<close> predicate, the map's layers, the layer control, the retry
  counter and the requested effects are all the same. The aggregation itself does not
  take the metric as an argument.
\<close>

theorem metric_noninterference:
  "fst (performUpdate (s\<lparr>selectedMetric := m\<rparr>) (opts\<lparr>dataSelector_selectedMetric := x\<rparr>))
      \<lparr>selectedMetric := c\<rparr>
     = fst (performUpdate s opts)\<lparr>selectedMetric := c\<rparr>
   \<and> snd (performUpdate (s\<lparr>selectedMetric := m\<rparr>) (opts\<lparr>dataSelector_selectedMetric := x\<rparr>))
     = snd (performUpdate s opts)"
proof -
  let ?s = "s\<lparr>selectedMetric := m\<rparr>" and ?o = "opts\<lparr>dataSelector_selectedMetric := x\<rparr>"
  show ?thesis
  proof (cases "dataview_table opts")
    case None
    then show ?thesis by (simp add: performUpdate_NoTable)
  next
    case (Some t)
    then have t': "dataview_table ?o = Some t" by simp
    show ?thesis
    proof (cases "previousTableData s = Some t")
      case True
      with Some show ?thesis by (simp add: performUpdate_Unchanged)
    next
      case False
      then have f': "previousTableData ?s \<noteq> Some t" by simp
      obtain mm where p: "prepared ?s ?o t = (prepared s opts t)\<lparr>selectedMetric := mm\<rparr>"
        using same_up_to_metric [OF prepared_metric] by blast
      show ?thesis
      proof (cases "findIndex (has_role Role_interstate) (table_columns t)")
        case None
        show ?thesis
          by (simp add: performUpdate_retry [OF Some False None]
              performUpdate_retry [OF t' f' None] p retry_metric)
      next
        case ii: (Some ii)
        show ?thesis
        proof (cases "jsonFilters opts")
          case None
          then have n': "jsonFilters ?o = None" by simp
          show ?thesis
            by (simp add: performUpdate_TypeError [OF Some False ii None]
                performUpdate_TypeError [OF t' f' ii n'] p)
        next
          case fs: (Some fs)
          then have fs': "jsonFilters ?o = Some fs" by simp
          show ?thesis
          proof (cases "findIndex (has_role Role_y) (table_columns t) = None
              \<or> findIndex (has_role Role_x) (table_columns t) = None
              \<or> findIndex (has_role Role_crashWeight) (table_columns t) = None
              \<or> findIndex (has_role Role_countyFIPS) (table_columns t) = None
              \<or> table_rows t = []")
            case True
            show ?thesis
              by (simp add: performUpdate_MissingData [OF Some False ii fs True]
                  performUpdate_MissingData [OF t' f' ii fs' True] p)
          next
            case False
            then obtain la lo cr fi where idx:
              "findIndex (has_role Role_y) (table_columns t) = Some la"
              "findIndex (has_role Role_x) (table_columns t) = Some lo"
              "findIndex (has_role Role_crashWeight) (table_columns t) = Some cr"
              "findIndex (has_role Role_countyFIPS) (table_columns t) = Some fi"
              "table_rows t \<noteq> []"
              by auto
            show ?thesis
              by (simp add: performUpdate_Completed [OF Some \<open>previousTableData s \<noteq> Some t\<close> ii fs idx]
                  performUpdate_Completed [OF t' f' ii fs' idx] p metric_swap_retryCount
                  reconcile_metric del: visual.update_convs)
          qed
        qed
      qed
    qed
  qed
qed

subsection \<open>The remote layer while no checkbox is clicked\<close>

lemma remote_consistent_constructed: "remote_consistent (constructed cs)"
  by (simp add: remote_consistent_def constructed_def attached_remote_def remote_entries_def
      is_feature_def)

lemma filter_single_removeAll:
  "filter P xs = [x] \<Longrightarrow> filter P (removeAll x xs) = []"
proof (induction xs)
  case Nil
  then show ?case by simp
next
  case (Cons a xs)
  show ?case
  proof (cases "P a")
    case True
    with Cons.prems have "a = x" and "filter P xs = []" by simp_all
    then show ?thesis by (simp add: filter_empty_conv)
  next
    case False
    with Cons show ?thesis by auto
  qed
qed

lemma remove_hccsLayer_detached:
  assumes "remote_consistent s"
  shows "remote_detached (remove_hccsLayer s)"
proof (cases "hccsLayer s")
  case None
  with assms show ?thesis
    by (simp add: remote_consistent_def remote_detached_def remove_hccsLayer_def)
next
  case (Some l)
  with assms have a: "attached_remote s = [FeatureLayer (layer_id l)]"
    and f: "hccsLayerAdded s" and c: "layerControl s \<noteq> None"
    by (simp_all add: remote_consistent_def)
  from a have "FeatureLayer (layer_id l) \<in> set (attached_remote s)" by simp
  then have m: "FeatureLayer (layer_id l) \<in> set (map_layers s)"
    by (simp add: attached_remote_def)
  from a have "filter is_feature (removeAll (FeatureLayer (layer_id l)) (map_layers s)) = []"
    unfolding attached_remote_def by (rule filter_single_removeAll)
  with Some m f c show ?thesis
    by (simp add: remote_detached_def remove_hccsLayer_def Let_def attached_remote_def
        remote_entries_def is_feature_def)
qed

lemma create_hccsLayer_attached:
  assumes "remote_detached s"
  shows "attached_remote (create_hccsLayer w s) = [FeatureLayer (created_layers s)]"
    and "hccsLayer (create_hccsLayer w s) = Some \<lparr>layer_id = created_layers s, where_clause = w\<rparr>"
    and "remote_entries (create_hccsLayer w s) = []"
    and "\<not> hccsLayerAdded (create_hccsLayer w s)"
    and "layerControl (create_hccsLayer w s) \<noteq> None"
  using assms
  by (simp_all add: remote_detached_def create_hccsLayer_def attached_remote_def
      remote_entries_def is_feature_def)

lemma add_overlay_once_consistent:
  assumes "remote_detached s"
  shows "remote_consistent (add_overlay_once (create_hccsLayer w s))"
proof -
  from assms obtain es where es: "layerControl s = Some es"
    by (auto simp: remote_detached_def)
  with assms have "filter (\<lambda>e. is_feature (snd e)) es = []"
    by (simp add: remote_detached_def remote_entries_def)
  with assms es show ?thesis
    by (simp add: remote_consistent_def remote_detached_def add_overlay_once_def
        create_hccsLayer_def attached_remote_def remote_entries_def is_feature_def)
qed

lemma remote_consistent_cong:
  assumes "hccsLayer s' = hccsLayer s" "hccsLayerAdded s' = hccsLayerAdded s"
    "layerControl s' = layerControl s" "map_layers s' = map_layers s"
  shows "remote_consistent s' = remote_consistent s"
  using assms
  by (cases "hccsLayer s") (simp_all add: remote_consistent_def attached_remote_def remote_entries_def)

lemma reconcile_consistent:
  assumes "remote_consistent s"
  shows "remote_consistent (reconcile rs la lo cr fi sel s)"
proof -
  let ?p = "rebuild_clusters rs la lo cr fi
      (zoom_to_counties rs fi (style_counties (crashByFIPS rs fi cr) s))"
  have "remote_consistent ?p = remote_consistent s"
    by (rule remote_consistent_cong) simp_all
  with assms have "remote_detached (remove_hccsLayer ?p)"
    by (simp add: remove_hccsLayer_detached)
  then have "remote_consistent
      (add_overlay_once (create_hccsLayer (build_where sel) (remove_hccsLayer ?p)))"
    by (rule add_overlay_once_consistent)
  moreover have "remote_consistent (reconcile rs la lo cr fi sel s)
      = remote_consistent
          (add_overlay_once (create_hccsLayer (build_where sel) (remove_hccsLayer ?p)))"
    unfolding reconcile_def by (rule remote_consistent_cong) simp_all
  ultimately show ?thesis by simp
qed

lemma performUpdate_consistent:
  assumes "remote_consistent s"
  shows "remote_consistent (fst (performUpdate s opts))"
proof (cases "dataview_table opts")
  case None
  with assms show ?thesis by (simp add: performUpdate_NoTable)
next
  case (Some t)
  show ?thesis
  proof (cases "previousTableData s = Some t")
    case True
    with Some assms show ?thesis by (simp add: performUpdate_Unchanged)
  next
    case False
    have "remote_consistent ((prepared s opts t)\<lparr>retryCount := 0\<rparr>) = remote_consistent s"
      by (rule remote_consistent_cong) simp_all
    with assms have p: "remote_consistent ((prepared s opts t)\<lparr>retryCount := 0\<rparr>)"
      by simp
    from Some False show ?thesis
    proof (cases rule: performUpdate_endings)
      case Retry
      have "remote_consistent (fst (retry (prepared s opts t))) = remote_consistent s"
        by (rule remote_consistent_cong) simp_all
      with assms have "remote_consistent (fst (retry (prepared s opts t)))" by simp
      with Retry show ?thesis by simp
    next
      case Threw
      with p show ?thesis by simp
    next
      case Missing
      with p show ?thesis by simp
    next
      case (Done rs la lo cr fi sel)
      with p show ?thesis by (simp add: reconcile_consistent)
    qed
  qed
qed

lemma run_snoc: "run s (es @ [e]) = step (run s es) e"
  by (simp add: run_def)

lemma run_Nil: "run s [] = s"
  by (simp add: run_def)

lemma run_Cons: "run s (e # es) = run (step s e) es"
  by (simp add: run_def)

text \<open>As long as no checkbox is clicked, every call keeps the state of the remote layer.\<close>

lemma run_updates_consistent: "remote_consistent (run (constructed cs) (map Update os))"
proof (induction os rule: rev_induct)
  case Nil
  show ?case by (simp add: run_Nil remote_consistent_constructed)
next
  case (snoc opts os)
  then show ?case by (simp add: run_snoc performUpdate_consistent)
qed

lemma remote_consistent_at_most_one:
  assumes "remote_consistent s"
  shows "length (attached_remote s) \<le> 1" and "length (remote_entries s) \<le> 1"
  using assms by (auto simp: remote_consistent_def split: option.splits)

subsection \<open>Change suppression\<close>

lemma prepared_effects:
  "effects (prepared s opts t) = effects s @ [RequestResize (viewport_width opts) (viewport_height opts)]"
  by (simp add: prepared_def resizeMap_def)

lemma retry_passes: "passes (fst (retry s)) = passes s"
  by (simp add: retry_def passes_def)

lemma phase_effects:
  "effects (style_counties m s) = effects s"
  "effects (zoom_to_counties rs fi s)
     = effects s @ (let b = countyBounds (countyLayers s) (filteredFIPS rs fi)
                    in if length b > 0 then [FitBounds b] else [])"
  "effects (rebuild_clusters rs la lo cr fi s) = effects s @ [ProcessView]"
  "effects (remove_hccsLayer s) = effects s"
  "effects (create_hccsLayer w s) = effects s"
  "effects (add_overlay_once s) = effects s"
  "effects (enforce_z_order s)
     = effects s @ [BringToBack]
       @ (case hccsLayer s of None \<Rightarrow> [] | Some l \<Rightarrow> [BringToFront (layer_id l)])
       @ [ProcessView]"
  by (simp_all add: style_counties_def zoom_to_counties_def rebuild_clusters_def
      remove_hccsLayer_def create_hccsLayer_def add_overlay_once_def enforce_z_order_def
      Let_def split: option.split)

lemma reconcile_passes: "passes (reconcile rs la lo cr fi sel s) = Suc (passes s)"
  by (simp add: reconcile_def passes_def phase_effects Let_def split: option.split)

lemma performUpdate_passes:
  "passes (fst (performUpdate s opts))
     = passes s + (if snd (performUpdate s opts) = Completed then 1 else 0)"
proof (cases "dataview_table opts")
  case None
  then show ?thesis by (simp add: performUpdate_NoTable)
next
  case (Some t)
  show ?thesis
  proof (cases "previousTableData s = Some t")
    case True
    with Some show ?thesis by (simp add: performUpdate_Unchanged)
  next
    case False
    have p: "passes ((prepared s opts t)\<lparr>retryCount := 0\<rparr>) = passes s"
      "passes (prepared s opts t) = passes s"
      by (simp_all add: passes_def prepared_effects)
    from Some False show ?thesis
    proof (cases rule: performUpdate_endings)
      case Retry
      have "snd (retry (prepared s opts t)) \<noteq> Completed"
        by (simp add: retry_def)
      with Retry show ?thesis by (simp add: retry_passes p)
    next
      case Threw
      then show ?thesis by (simp add: p)
    next
      case Missing
      then show ?thesis by (simp add: p)
    next
      case (Done rs la lo cr fi sel)
      then show ?thesis by (simp add: reconcile_passes p)
    qed
  qed
qed

text \<open>
  Claim C5, amended. When two calls in succession carry equal tables, the second returns
  at line 193 or 194 and leaves the whole state as the first call left it: no layer,
  control, marker or counter changes and no effect is requested. Over the two calls the
  layers are passed over at most once: exactly once when the first call completes its
  pass, and not at all when the first call ends before it.
\<close>

theorem change_suppression:
  assumes "dataview_table opts' = dataview_table opts"
  shows "performUpdate (fst (performUpdate s opts)) opts'
           = (fst (performUpdate s opts), if dataview_table opts = None then NoTable else Unchanged)
         \<and> run s [Update opts, Update opts'] = run s [Update opts]
         \<and> passes (run s [Update opts, Update opts'])
           = passes s + (if snd (performUpdate s opts) = Completed then 1 else 0)"
proof -
  have r: "performUpdate (fst (performUpdate s opts)) opts'
      = (fst (performUpdate s opts), if dataview_table opts = None then NoTable else Unchanged)"
    using assms by (rule performUpdate_repeat)
  then have u: "run s [Update opts, Update opts'] = run s [Update opts]"
    by (simp add: run_def)
  have "passes (run s [Update opts])
      = passes s + (if snd (performUpdate s opts) = Completed then 1 else 0)"
    by (simp add: run_def performUpdate_passes)
  with r u show ?thesis by simp
qed

subsection \<open>The example inputs\<close>

lemma example_indices:
  "findIndex (has_role Role_y) example_columns = Some 0"
  "findIndex (has_role Role_x) example_columns = Some 1"
  "findIndex (has_role Role_crashWeight) example_columns = Some 2"
  "findIndex (has_role Role_countyFIPS) example_columns = Some 3"
  "findIndex (has_role Role_interstate) example_columns = Some 4"
  by (simp_all add: example_columns_def has_role_def)

lemma no_interstate_index:
  "findIndex (has_role Role_interstate) (take 4 example_columns) = None"
  by (simp add: example_columns_def has_role_def)

lemma example_table_simps [simp]:
  "table_columns example_table = example_columns"
  "table_rows example_table \<noteq> []"
  "table_columns other_table = example_columns"
  "table_rows other_table \<noteq> []"
  "table_columns no_interstate_table = take 4 example_columns"
  by (simp_all add: table_columns_def table_rows_def example_table_def other_table_def
      no_interstate_table_def)

lemma example_completed:
  assumes "previousTableData s \<noteq> Some example_table"
  shows "snd (performUpdate s example_options) = Completed"
  using performUpdate_Completed [of example_options example_table s 4 "[]" 0 1 2 3] assms
  by (simp add: example_options_def example_indices)

theorem change_suppression_witness:
  "performUpdate (fst (performUpdate (constructed example_counties) example_options))
      (example_options\<lparr>viewport_width := 1024\<rparr>)
     = (fst (performUpdate (constructed example_counties) example_options), Unchanged)
   \<and> passes (run (constructed example_counties)
        [Update example_options, Update (example_options\<lparr>viewport_width := 1024\<rparr>)]) = 1"
proof -
  have c: "snd (performUpdate (constructed example_counties) example_options) = Completed"
    by (rule example_completed) (simp add: constructed_def)
  have p: "passes (constructed example_counties) = 0"
    by (simp add: passes_def constructed_def)
  have t: "dataview_table (example_options\<lparr>viewport_width := 1024\<rparr>) = dataview_table example_options"
    by simp
  have n: "dataview_table example_options \<noteq> None"
    by (simp add: example_options_def)
  from change_suppression [OF t, of "constructed example_counties"]
  have a: "performUpdate (fst (performUpdate (constructed example_counties) example_options))
        (example_options\<lparr>viewport_width := 1024\<rparr>)
      = (fst (performUpdate (constructed example_counties) example_options),
         if dataview_table example_options = None then NoTable else Unchanged)"
    and b: "passes (run (constructed example_counties)
          [Update example_options, Update (example_options\<lparr>viewport_width := 1024\<rparr>)])
      = passes (constructed example_counties)
        + (if snd (performUpdate (constructed example_counties) example_options) = Completed
           then 1 else 0)"
    by blast+
  from a n have "performUpdate (fst (performUpdate (constructed example_counties) example_options))
        (example_options\<lparr>viewport_width := 1024\<rparr>)
      = (fst (performUpdate (constructed example_counties) example_options), Unchanged)"
    by simp
  moreover from b c p have "passes (run (constructed example_counties)
          [Update example_options, Update (example_options\<lparr>viewport_width := 1024\<rparr>)]) = 1"
    by simp
  ultimately show ?thesis by simp
qed

text \<open>
  Claim C5, as stated, has exactly one pass over the layers whenever two calls in
  succession carry equal tables. A table with all five columns and no rows makes the
  first call return at line 268 before any layer is touched, and the second return at
  line 194: no pass at all. The same happens with the table that lacks the role
  \<open>interstate\<close>, whose first call ends in the retry branch.
\<close>

theorem change_suppression_counterexample:
  "snd (performUpdate (constructed example_counties) no_rows_options) = MissingData
   \<and> snd (performUpdate (fst (performUpdate (constructed example_counties) no_rows_options))
        no_rows_options) = Unchanged
   \<and> passes (run (constructed example_counties) [Update no_rows_options, Update no_rows_options])
     = 0
   \<and> passes (run (constructed example_counties)
        [Update no_interstate_options, Update no_interstate_options]) = 0"
proof -
  let ?s0 = "constructed example_counties"
  have p0: "passes ?s0 = 0"
    by (simp add: passes_def constructed_def)
  have m: "performUpdate ?s0 no_rows_options
      = ((prepared ?s0 no_rows_options no_rows_table)\<lparr>retryCount := 0\<rparr>, MissingData)"
    by (rule performUpdate_MissingData [where ii = 4 and fs = "[]"])
      (simp_all add: no_rows_options_def constructed_def table_columns_def table_rows_def
        no_rows_table_def example_indices)
  have u: "performUpdate (fst (performUpdate ?s0 no_rows_options)) no_rows_options
      = (fst (performUpdate ?s0 no_rows_options), Unchanged)"
    using performUpdate_repeat [of no_rows_options no_rows_options ?s0]
    by (simp add: no_rows_options_def)
  have a: "passes (run ?s0 [Update no_rows_options, Update no_rows_options]) = 0"
    using performUpdate_passes [of ?s0 no_rows_options] p0
    by (simp add: run_def u) (simp add: m)
  have r: "performUpdate ?s0 no_interstate_options
      = retry (prepared ?s0 no_interstate_options no_interstate_table)"
    by (rule performUpdate_retry)
      (simp_all add: no_interstate_options_def constructed_def no_interstate_index)
  have n: "snd (performUpdate ?s0 no_interstate_options) \<noteq> Completed"
    by (simp add: r retry_def)
  have v: "performUpdate (fst (performUpdate ?s0 no_interstate_options)) no_interstate_options
      = (fst (performUpdate ?s0 no_interstate_options), Unchanged)"
    using performUpdate_repeat [of no_interstate_options no_interstate_options ?s0]
    by (simp add: no_interstate_options_def)
  have b: "passes (run ?s0 [Update no_interstate_options, Update no_interstate_options]) = 0"
    using performUpdate_passes [of ?s0 no_interstate_options] p0 n
    by (simp add: run_def v)
  from m u a b show ?thesis by simp
qed

theorem metric_noninterference_witness:
  "fst (performUpdate ((constructed example_counties)\<lparr>selectedMetric := js ''persons''\<rparr>)
         (example_options\<lparr>dataSelector_selectedMetric := Some (js ''persons'')\<rparr>))
      \<lparr>selectedMetric := js ''crashes''\<rparr>
     = fst (performUpdate (constructed example_counties) example_options)
         \<lparr>selectedMetric := js ''crashes''\<rparr>
   \<and> snd (performUpdate ((constructed example_counties)\<lparr>selectedMetric := js ''persons''\<rparr>)
         (example_options\<lparr>dataSelector_selectedMetric := Some (js ''persons'')\<rparr>))
     = Completed"
proof -
  have c: "snd (performUpdate (constructed example_counties) example_options) = Completed"
    by (rule example_completed) (simp add: constructed_def)
  from metric_noninterference [where s = "constructed example_counties" and m = "js ''persons''"
      and opts = example_options and x = "Some (js ''persons'')" and c = "js ''crashes''"] c
  show ?thesis by simp
qed

subsection \<open>Retries and the remembered table\<close>

lemma retry_scheduled_unchanged:
  assumes "performUpdate s opts = (s', RetryScheduled)"
  shows "performUpdate s' opts = (s', Unchanged)"
proof (cases "dataview_table opts")
  case None
  with assms show ?thesis by (simp add: performUpdate_NoTable)
next
  case (Some t)
  from assms have s': "s' = fst (performUpdate s opts)" by simp
  from Some have "previousTableData s' = Some t"
    unfolding s' by (rule performUpdate_previousTableData)
  with Some show ?thesis by (simp add: performUpdate_Unchanged)
qed

lemma run_cycle_returns:
  "run_cycle (Suc (Suc n)) s opts =
     Some (fst (performUpdate s opts),
           if snd (performUpdate s opts) = RetryScheduled then Unchanged
           else snd (performUpdate s opts))"
proof -
  obtain s' e where pe: "performUpdate s opts = (s', e)"
    by (cases "performUpdate s opts")
  show ?thesis
  proof (cases "e = RetryScheduled")
    case True
    with pe have "performUpdate s' opts = (s', Unchanged)"
      by (simp add: retry_scheduled_unchanged)
    with pe True show ?thesis by simp
  next
    case False
    with pe show ?thesis by (cases e) simp_all
  qed
qed

lemma performUpdate_retryCount_bound:
  assumes "retryCount s \<le> 5"
  shows "retryCount (fst (performUpdate s opts)) \<le> 5"
proof (cases "dataview_table opts")
  case None
  with assms show ?thesis by (simp add: performUpdate_NoTable)
next
  case (Some t)
  show ?thesis
  proof (cases "previousTableData s = Some t")
    case True
    with Some assms show ?thesis by (simp add: performUpdate_Unchanged)
  next
    case False
    from Some False show ?thesis
    proof (cases rule: performUpdate_endings)
      case Retry
      with assms show ?thesis by (simp add: retry_def)
    qed simp_all
  qed
qed

subsection \<open>The feature layer a pass creates\<close>

lemma reconcile_hccsLayer:
  "hccsLayer (reconcile rs la lo cr fi sel s)
     = Some \<lparr> layer_id = created_layers s, where_clause = build_where sel \<rparr>"
  "created_layers (reconcile rs la lo cr fi sel s) = Suc (created_layers s)"
  by (simp_all add: reconcile_def create_hccsLayer_def)

lemma example_tables_differ: "example_table \<noteq> other_table"
  by (simp add: example_table_def other_table_def)

lemma other_completed:
  assumes "previousTableData s \<noteq> Some other_table"
  shows "snd (performUpdate s other_options) = Completed"
  using performUpdate_Completed [of other_options other_table s 4 "[]" 0 1 2 3] assms
  by (simp add: other_options_def example_indices)

subsection \<open>The remote layer and the overlay checkbox\<close>

lemma toggle_overlay_fields [simp]:
  "previousTableData (toggle_overlay l s) = previousTableData s"
  "retryCount (toggle_overlay l s) = retryCount s"
  "hccsLayer (toggle_overlay l s) = hccsLayer s"
  "hccsLayerAdded (toggle_overlay l s) = hccsLayerAdded s"
  "layerControl (toggle_overlay l s) = layerControl s"
  "created_layers (toggle_overlay l s) = created_layers s"
  by (simp_all add: toggle_overlay_def split: option.split)

lemma selector_consistent_cong:
  assumes "hccsLayerAdded s' = hccsLayerAdded s" "layerControl s' = layerControl s"
  shows "selector_consistent s' = selector_consistent s"
  using assms by (simp add: selector_consistent_def remote_entries_def)

lemma selector_consistent_constructed: "selector_consistent (constructed cs)"
  by (simp add: selector_consistent_def constructed_def remote_entries_def is_feature_def)

lemma remove_hccsLayer_selector:
  assumes "selector_consistent s"
  shows "selector_consistent (remove_hccsLayer s)"
  using assms
  by (auto simp: selector_consistent_def remove_hccsLayer_def remote_entries_def is_feature_def
      Let_def split: option.splits)

lemma create_hccsLayer_selector:
  "selector_consistent (create_hccsLayer w s) = selector_consistent s"
  by (rule selector_consistent_cong) simp_all

lemma add_overlay_once_selector:
  assumes "selector_consistent s"
  shows "selector_consistent (add_overlay_once s)"
  using assms
  by (auto simp: selector_consistent_def add_overlay_once_def remote_entries_def is_feature_def
      split: option.splits)

lemma reconcile_selector:
  assumes "selector_consistent s"
  shows "selector_consistent (reconcile rs la lo cr fi sel s)"
proof -
  let ?p = "rebuild_clusters rs la lo cr fi
      (zoom_to_counties rs fi (style_counties (crashByFIPS rs fi cr) s))"
  have "selector_consistent ?p = selector_consistent s"
    by (rule selector_consistent_cong) simp_all
  with assms have "selector_consistent (remove_hccsLayer ?p)"
    by (simp add: remove_hccsLayer_selector)
  then have "selector_consistent
      (add_overlay_once (create_hccsLayer (build_where sel) (remove_hccsLayer ?p)))"
    by (simp add: add_overlay_once_selector create_hccsLayer_selector)
  moreover have "selector_consistent (reconcile rs la lo cr fi sel s)
      = selector_consistent
          (add_overlay_once (create_hccsLayer (build_where sel) (remove_hccsLayer ?p)))"
    unfolding reconcile_def by (rule selector_consistent_cong) simp_all
  ultimately show ?thesis by simp
qed

lemma performUpdate_selector:
  assumes "selector_consistent s"
  shows "selector_consistent (fst (performUpdate s opts))"
proof (cases "dataview_table opts")
  case None
  with assms show ?thesis by (simp add: performUpdate_NoTable)
next
  case (Some t)
  show ?thesis
  proof (cases "previousTableData s = Some t")
    case True
    with Some assms show ?thesis by (simp add: performUpdate_Unchanged)
  next
    case False
    have "selector_consistent ((prepared s opts t)\<lparr>retryCount := 0\<rparr>) = selector_consistent s"
      by (rule selector_consistent_cong) simp_all
    with assms have p: "selector_consistent ((prepared s opts t)\<lparr>retryCount := 0\<rparr>)"
      by simp
    from Some False show ?thesis
    proof (cases rule: performUpdate_endings)
      case Retry
      have "selector_consistent (fst (retry (prepared s opts t))) = selector_consistent s"
        by (rule selector_consistent_cong) simp_all
      with assms have "selector_consistent (fst (retry (prepared s opts t)))" by simp
      with Retry show ?thesis by simp
    next
      case Threw
      with p show ?thesis by simp
    next
      case Missing
      with p show ?thesis by simp
    next
      case (Done rs la lo cr fi sel)
      with p show ?thesis by (simp add: reconcile_selector)
    qed
  qed
qed

lemma run_selector_consistent: "selector_consistent (run (constructed cs) es)"
proof (induction es rule: rev_induct)
  case Nil
  show ?case by (simp add: run_Nil selector_consistent_constructed)
next
  case (snoc e es)
  show ?case
  proof (cases e)
    case (Update opts)
    with snoc show ?thesis by (simp add: run_snoc performUpdate_selector)
  next
    case (Toggle l)
    have "selector_consistent (toggle_overlay l (run (constructed cs) es))
        = selector_consistent (run (constructed cs) es)"
      by (rule selector_consistent_cong) simp_all
    with snoc Toggle show ?thesis by (simp add: run_snoc)
  qed
qed

text \<open>
  The layer control never lists more than one feature layer, whatever calls and clicks
  happen: the flag of lines 364 and 445 does keep the entries of the selector apart.
\<close>

theorem selector_at_most_one_entry: "length (remote_entries (run (constructed cs) es)) \<le> 1"
  using run_selector_consistent [of cs es] by (simp add: selector_consistent_def)

text \<open>
  The layers on the map, the control and the flag after lines 359 to 448, for a visual
  that has a layer control.
\<close>

lemma reconcile_remote_fields:
  assumes "layerControl s = Some es"
  shows "map_layers (reconcile rs la lo cr fi sel s)
      = (case hccsLayer s of
           None \<Rightarrow> map_layers s
         | Some l \<Rightarrow> removeAll (FeatureLayer (layer_id l)) (map_layers s))
        @ [FeatureLayer (created_layers s)]"
    and "layerControl (reconcile rs la lo cr fi sel s)
      = (case hccsLayer s of
           None \<Rightarrow>
             if hccsLayerAdded s then Some es
             else Some (es @ [(js ''High Crash Corridors'', FeatureLayer (created_layers s))])
         | Some l \<Rightarrow>
             if FeatureLayer (layer_id l) \<in> set (map_layers s) \<and> hccsLayerAdded s
             then Some [(js ''Incidents'', PruneCluster), (js ''Counties'', CountiesLayer),
                        (js ''High Crash Corridors'', FeatureLayer (created_layers s))]
             else if hccsLayerAdded s then Some es
             else Some (es @ [(js ''High Crash Corridors'', FeatureLayer (created_layers s))]))"
    and "hccsLayerAdded (reconcile rs la lo cr fi sel s)"
proof -
  let ?p = "rebuild_clusters rs la lo cr fi
      (zoom_to_counties rs fi (style_counties (crashByFIPS rs fi cr) s))"
  have p: "hccsLayer ?p = hccsLayer s" "hccsLayerAdded ?p = hccsLayerAdded s"
    "layerControl ?p = Some es" "map_layers ?p = map_layers s"
    "created_layers ?p = created_layers s"
    using assms by simp_all
  have r: "map_layers (remove_hccsLayer ?p)
        = (case hccsLayer s of
             None \<Rightarrow> map_layers s
           | Some l \<Rightarrow> removeAll (FeatureLayer (layer_id l)) (map_layers s))"
    "layerControl (remove_hccsLayer ?p)
        = (case hccsLayer s of
             None \<Rightarrow> Some es
           | Some l \<Rightarrow>
               if FeatureLayer (layer_id l) \<in> set (map_layers s) \<and> hccsLayerAdded s
               then Some [(js ''Incidents'', PruneCluster), (js ''Counties'', CountiesLayer)]
               else Some es)"
    "hccsLayerAdded (remove_hccsLayer ?p)
        = (case hccsLayer s of
             None \<Rightarrow> hccsLayerAdded s
           | Some l \<Rightarrow>
               if FeatureLayer (layer_id l) \<in> set (map_layers s) \<and> hccsLayerAdded s
               then False else hccsLayerAdded s)"
    using assms by (auto simp: remove_hccsLayer_def removeAll_id Let_def split: option.split)
  let ?q = "create_hccsLayer (build_where sel) (remove_hccsLayer ?p)"
  have q: "map_layers ?q = map_layers (remove_hccsLayer ?p) @ [FeatureLayer (created_layers s)]"
    "hccsLayer ?q = Some \<lparr> layer_id = created_layers s, where_clause = build_where sel \<rparr>"
    "layerControl ?q = layerControl (remove_hccsLayer ?p)"
    "hccsLayerAdded ?q = hccsLayerAdded (remove_hccsLayer ?p)"
    by (simp_all add: create_hccsLayer_def)
  have e: "reconcile rs la lo cr fi sel s = enforce_z_order (add_overlay_once ?q)"
    by (simp add: reconcile_def)
  show "map_layers (reconcile rs la lo cr fi sel s)
      = (case hccsLayer s of
           None \<Rightarrow> map_layers s
         | Some l \<Rightarrow> removeAll (FeatureLayer (layer_id l)) (map_layers s))
        @ [FeatureLayer (created_layers s)]"
    by (simp add: e q r)
  show "layerControl (reconcile rs la lo cr fi sel s)
      = (case hccsLayer s of
           None \<Rightarrow>
             if hccsLayerAdded s then Some es
             else Some (es @ [(js ''High Crash Corridors'', FeatureLayer (created_layers s))])
         | Some l \<Rightarrow>
             if FeatureLayer (layer_id l) \<in> set (map_layers s) \<and> hccsLayerAdded s
             then Some [(js ''Incidents'', PruneCluster), (js ''Counties'', CountiesLayer),
                        (js ''High Crash Corridors'', FeatureLayer (created_layers s))]
             else if hccsLayerAdded s then Some es
             else Some (es @ [(js ''High Crash Corridors'', FeatureLayer (created_layers s))]))"
    by (cases "hccsLayer s") (auto simp: e add_overlay_once_def q r)
  show "hccsLayerAdded (reconcile rs la lo cr fi sel s)"
    by (cases "hccsLayer s") (auto simp: e add_overlay_once_def q r)
qed

lemma performUpdate_Completed_state:
  assumes "snd (performUpdate s opts) = Completed"
  obtains rs la lo cr fi sel p where
    "fst (performUpdate s opts) = reconcile rs la lo cr fi sel p"
    "hccsLayer p = hccsLayer s" "hccsLayerAdded p = hccsLayerAdded s"
    "layerControl p = layerControl s" "map_layers p = map_layers s"
    "created_layers p = created_layers s"
proof (cases "dataview_table opts")
  case None
  with assms show ?thesis by (simp add: performUpdate_NoTable)
next
  case (Some t)
  show ?thesis
  proof (cases "previousTableData s = Some t")
    case True
    with Some assms show ?thesis by (simp add: performUpdate_Unchanged)
  next
    case False
    from Some False show ?thesis
    proof (cases rule: performUpdate_endings)
      case Retry
      with assms show ?thesis by (simp add: retry_def split: if_splits)
    next
      case Threw
      with assms show ?thesis by simp
    next
      case Missing
      with assms show ?thesis by simp
    next
      case (Done rs la lo cr fi sel)
      show ?thesis
        by (rule that [of rs la lo cr fi sel "(prepared s opts t)\<lparr>retryCount := 0\<rparr>"])
          (simp_all add: Done)
    qed
  qed
qed

text \<open>The same for a call of \<open>performUpdate\<close> that completes.\<close>

lemma performUpdate_Completed_remote:
  assumes "snd (performUpdate s opts) = Completed" and "layerControl s = Some es"
  shows "map_layers (fst (performUpdate s opts))
      = (case hccsLayer s of
           None \<Rightarrow> map_layers s
         | Some l \<Rightarrow> removeAll (FeatureLayer (layer_id l)) (map_layers s))
        @ [FeatureLayer (created_layers s)]"
    and "layerControl (fst (performUpdate s opts))
      = (case hccsLayer s of
           None \<Rightarrow>
             if hccsLayerAdded s then Some es
             else Some (es @ [(js ''High Crash Corridors'', FeatureLayer (created_layers s))])
         | Some l \<Rightarrow>
             if FeatureLayer (layer_id l) \<in> set (map_layers s) \<and> hccsLayerAdded s
             then Some [(js ''Incidents'', PruneCluster), (js ''Counties'', CountiesLayer),
                        (js ''High Crash Corridors'', FeatureLayer (created_layers s))]
             else if hccsLayerAdded s then Some es
             else Some (es @ [(js ''High Crash Corridors'', FeatureLayer (created_layers s))]))"
    and "hccsLayerAdded (fst (performUpdate s opts))"
    and "map_option layer_id (hccsLayer (fst (performUpdate s opts))) = Some (created_layers s)"
    and "created_layers (fst (performUpdate s opts)) = Suc (created_layers s)"
proof -
  from assms(1) obtain rs la lo cr fi sel p where
    f: "fst (performUpdate s opts) = reconcile rs la lo cr fi sel p"
    and p: "hccsLayer p = hccsLayer s" "hccsLayerAdded p = hccsLayerAdded s"
    "layerControl p = layerControl s" "map_layers p = map_layers s"
    "created_layers p = created_layers s"
    by (rule performUpdate_Completed_state)
  from p assms(2) have c: "layerControl p = Some es" by simp
  note r = reconcile_remote_fields [OF c, of rs la lo cr fi sel, unfolded p]
  show "map_layers (fst (performUpdate s opts))
      = (case hccsLayer s of
           None \<Rightarrow> map_layers s
         | Some l \<Rightarrow> removeAll (FeatureLayer (layer_id l)) (map_layers s))
        @ [FeatureLayer (created_layers s)]"
    unfolding f by (rule r(1))
  show "layerControl (fst (performUpdate s opts))
      = (case hccsLayer s of
           None \<Rightarrow>
             if hccsLayerAdded s then Some es
             else Some (es @ [(js ''High Crash Corridors'', FeatureLayer (created_layers s))])
         | Some l \<Rightarrow>
             if FeatureLayer (layer_id l) \<in> set (map_layers s) \<and> hccsLayerAdded s
             then Some [(js ''Incidents'', PruneCluster), (js ''Counties'', CountiesLayer),
                        (js ''High Crash Corridors'', FeatureLayer (created_layers s))]
             else if hccsLayerAdded s then Some es
             else Some (es @ [(js ''High Crash Corridors'', FeatureLayer (created_layers s))]))"
    unfolding f by (rule r(2))
  show "hccsLayerAdded (fst (performUpdate s opts))"
    unfolding f by (rule r(3))
  show "map_option layer_id (hccsLayer (fst (performUpdate s opts))) = Some (created_layers s)"
    and "created_layers (fst (performUpdate s opts)) = Suc (created_layers s)"
    by (simp_all add: f reconcile_hccsLayer p)
qed

text \<open>
  Claim C8 at a visual whose user unticks and later ticks the overlay of the first
  feature layer. The call after the untick finds the layer off the map (line 360), so it
  neither removes it nor rebuilds the control, and with the flag still set the new layer
  is not registered (line 445): the control keeps the entry of the old layer. The tick
  puts the old layer back on the map beside the new one, two feature layers attached.
  The next call, which completes, removes only the layer of \<open>hccsLayer\<close> and rebuilds the
  control: the old layer stays on the map, listed nowhere, beside the newest one.
\<close>

theorem remote_layer_orphaned_after_toggle:
  "attached_remote (run (constructed example_counties)
      [Update example_options, Toggle (FeatureLayer 0), Update other_options,
       Toggle (FeatureLayer 0)])
     = [FeatureLayer 1, FeatureLayer 0]
   \<and> snd (performUpdate (run (constructed example_counties)
        [Update example_options, Toggle (FeatureLayer 0), Update other_options,
         Toggle (FeatureLayer 0)]) example_options) = Completed
   \<and> attached_remote (run (constructed example_counties)
      [Update example_options, Toggle (FeatureLayer 0), Update other_options,
       Toggle (FeatureLayer 0), Update example_options])
     = [FeatureLayer 0, FeatureLayer 2]
   \<and> map_option layer_id (hccsLayer (run (constructed example_counties)
      [Update example_options, Toggle (FeatureLayer 0), Update other_options,
       Toggle (FeatureLayer 0), Update example_options])) = Some 2
   \<and> remote_entries (run (constructed example_counties)
      [Update example_options, Toggle (FeatureLayer 0), Update other_options,
       Toggle (FeatureLayer 0), Update example_options])
     = [(js ''High Crash Corridors'', FeatureLayer 2)]"
proof -
  let ?s0 = "constructed example_counties"
  let ?s1 = "fst (performUpdate ?s0 example_options)"
  let ?s2 = "toggle_overlay (FeatureLayer 0) ?s1"
  let ?s3 = "fst (performUpdate ?s2 other_options)"
  let ?s4 = "toggle_overlay (FeatureLayer 0) ?s3"
  let ?s5 = "fst (performUpdate ?s4 example_options)"
  let ?hcc = "js ''High Crash Corridors''"
  let ?base = "[(js ''Incidents'', PruneCluster), (js ''Counties'', CountiesLayer)]"
  have r4: "run ?s0 [Update example_options, Toggle (FeatureLayer 0), Update other_options,
      Toggle (FeatureLayer 0)] = ?s4"
    and r5: "run ?s0 [Update example_options, Toggle (FeatureLayer 0), Update other_options,
      Toggle (FeatureLayer 0), Update example_options] = ?s5"
    by (simp_all add: run_def)
  have c0: "layerControl ?s0 = Some ?base" "hccsLayer ?s0 = None" "\<not> hccsLayerAdded ?s0"
    "map_layers ?s0 = [PruneCluster, CountiesLayer]" "created_layers ?s0 = 0"
    by (simp_all add: constructed_def)
  have e1: "snd (performUpdate ?s0 example_options) = Completed"
    by (rule example_completed) (simp add: constructed_def)
  note a1 = performUpdate_Completed_remote [OF e1 c0(1)]
  have s1: "map_layers ?s1 = [PruneCluster, CountiesLayer, FeatureLayer 0]"
    "layerControl ?s1 = Some (?base @ [(?hcc, FeatureLayer 0)])"
    "hccsLayerAdded ?s1" "map_option layer_id (hccsLayer ?s1) = Some 0"
    "created_layers ?s1 = 1"
    using a1 by (simp_all add: c0)
  have t1: "previousTableData ?s1 = Some example_table"
    by (rule performUpdate_previousTableData) (simp add: example_options_def)
  have s2: "map_layers ?s2 = [PruneCluster, CountiesLayer]"
    "layerControl ?s2 = Some (?base @ [(?hcc, FeatureLayer 0)])"
    "hccsLayerAdded ?s2" "map_option layer_id (hccsLayer ?s2) = Some 0"
    "created_layers ?s2 = 1" "previousTableData ?s2 = Some example_table"
    using s1 t1 by (simp_all add: toggle_overlay_def)
  have e3: "snd (performUpdate ?s2 other_options) = Completed"
    by (rule other_completed) (simp add: t1 example_tables_differ)
  note a3 = performUpdate_Completed_remote [OF e3 s2(2)]
  from s2(4) obtain l0 where l0: "hccsLayer ?s2 = Some l0" "layer_id l0 = 0"
    by auto
  have s3: "map_layers ?s3 = [PruneCluster, CountiesLayer, FeatureLayer 1]"
    "layerControl ?s3 = Some (?base @ [(?hcc, FeatureLayer 0)])"
    "hccsLayerAdded ?s3" "map_option layer_id (hccsLayer ?s3) = Some 1"
    "created_layers ?s3 = 2"
    using a3 by (simp_all add: l0 s2(1,3,5) del: toggle_overlay_fields)
  have t3: "previousTableData ?s3 = Some other_table"
    by (rule performUpdate_previousTableData) (simp add: other_options_def)
  have s4: "map_layers ?s4 = [PruneCluster, CountiesLayer, FeatureLayer 1, FeatureLayer 0]"
    "layerControl ?s4 = Some (?base @ [(?hcc, FeatureLayer 0)])"
    "hccsLayerAdded ?s4" "map_option layer_id (hccsLayer ?s4) = Some 1"
    "created_layers ?s4 = 2" "previousTableData ?s4 = Some other_table"
    using s3 t3 by (simp_all add: toggle_overlay_def)
  have e5: "snd (performUpdate ?s4 example_options) = Completed"
    by (rule example_completed) (use example_tables_differ in \<open>auto simp: t3\<close>)
  note a5 = performUpdate_Completed_remote [OF e5 s4(2)]
  from s4(4) obtain l1 where l1: "hccsLayer ?s4 = Some l1" "layer_id l1 = 1"
    by auto
  have s5: "map_layers ?s5 = [PruneCluster, CountiesLayer, FeatureLayer 0, FeatureLayer 2]"
    "layerControl ?s5 = Some (?base @ [(?hcc, FeatureLayer 2)])"
    "map_option layer_id (hccsLayer ?s5) = Some 2"
    using a5 by (simp_all add: l1 s4(1,3,5) del: toggle_overlay_fields)
  from s4(1) have "attached_remote ?s4 = [FeatureLayer 1, FeatureLayer 0]"
    by (simp add: attached_remote_def is_feature_def)
  moreover from s5(1) have "attached_remote ?s5 = [FeatureLayer 0, FeatureLayer 2]"
    by (simp add: attached_remote_def is_feature_def)
  moreover from s5(2) have "remote_entries ?s5 = [(?hcc, FeatureLayer 2)]"
    by (simp add: remote_entries_def is_feature_def)
  ultimately show ?thesis
    unfolding r4 r5 using e5 s5(3) by (intro conjI)
qed

subsection \<open>One retry cycle\<close>

text \<open>
  Claim C6 at the table without a column of role \<open>interstate\<close>: the first call counts one
  retry, warns and sets the timer; the call made by the timer finds the table it
  remembered at line 195 and returns at line 194. The cycle ends there with the counter
  at 1, one timer set and no error logged, instead of after five retries.
\<close>

theorem retry_cycle_ends_after_one_retry:
  "run_cycle 6 (constructed example_counties) no_interstate_options
     = Some ((constructed example_counties)
               \<lparr> previousTableData := Some no_interstate_table, retryCount := 1,
                 effects := [RequestResize 800 600, ConsoleWarn 1, SetTimeout 500] \<rparr>,
             Unchanged)"
proof -
  have "performUpdate (constructed example_counties) no_interstate_options
      = retry (prepared (constructed example_counties) no_interstate_options no_interstate_table)"
    by (rule performUpdate_retry)
      (simp_all add: no_interstate_options_def constructed_def no_interstate_index)
  also have "\<dots> = ((constructed example_counties)
               \<lparr> previousTableData := Some no_interstate_table, retryCount := 1,
                 effects := [RequestResize 800 600, ConsoleWarn 1, SetTimeout 500] \<rparr>,
             RetryScheduled)"
    by (simp add: retry_def prepared_def resizeMap_def constructed_def no_interstate_options_def
        metric_or_crashes_def)
  finally show ?thesis
    using run_cycle_returns [of 4 "constructed example_counties" no_interstate_options]
    by (simp add: eval_nat_numeral)
qed

subsection \<open>Aggregation\<close>

lemma is_integer_Fin: "is_integer n \<Longrightarrow> n = Fin (finite_value n)"
  by (cases n) (simp_all add: is_integer_def finite_value_def)

lemma or_zero_Fin [simp]: "or_zero (Fin a) = Fin a"
  by (simp add: or_zero_def)

lemma fold_aggregate_other:
  "\<forall>r\<in>set rs. fips_of fi r \<noteq> k \<Longrightarrow> fold (aggregate_row fi cr) rs m k = m k"
  by (induction rs arbitrary: m) (auto simp: aggregate_row_def Let_def)

lemma fold_aggregate_finite:
  assumes "\<forall>r\<in>set rs. is_integer (weight_of cr r)"
    and "m k = Some (Fin a)"
  shows "fold (aggregate_row fi cr) rs m k = Some (Fin (a + total_for rs fi cr k))"
  using assms
proof (induction rs arbitrary: m a)
  case Nil
  then show ?case by (simp add: total_for_def)
next
  case (Cons r rs)
  from Cons.prems obtain w where w: "weight_of cr r = Fin w"
    using is_integer_Fin by fastforce
  show ?case
  proof (cases "fips_of fi r = k")
    case True
    with Cons.prems w have "aggregate_row fi cr r m k = Some (Fin (a + w))"
      by (simp add: aggregate_row_def Let_def lookup_or_zero_def)
    with Cons.prems have "fold (aggregate_row fi cr) rs (aggregate_row fi cr r m) k
        = Some (Fin (a + w + total_for rs fi cr k))"
      by (intro Cons.IH) simp_all
    with True w show ?thesis by (simp add: total_for_def finite_value_def add.assoc)
  next
    case False
    with Cons.prems have "aggregate_row fi cr r m k = Some (Fin a)"
      by (simp add: aggregate_row_def Let_def)
    with Cons.prems have "fold (aggregate_row fi cr) rs (aggregate_row fi cr r m) k
        = Some (Fin (a + total_for rs fi cr k))"
      by (intro Cons.IH) simp_all
    with False show ?thesis by (simp add: total_for_def)
  qed
qed

lemma fold_aggregate_absent:
  assumes "\<forall>r\<in>set rs. is_integer (weight_of cr r)"
    and "m k = None"
  shows "fold (aggregate_row fi cr) rs m k
     = (if k \<in> fips_of fi ` set rs then Some (Fin (total_for rs fi cr k)) else None)"
  using assms
proof (induction rs arbitrary: m)
  case Nil
  then show ?case by simp
next
  case (Cons r rs)
  from Cons.prems obtain w where w: "weight_of cr r = Fin w"
    using is_integer_Fin by fastforce
  show ?case
  proof (cases "fips_of fi r = k")
    case True
    with Cons.prems w have "aggregate_row fi cr r m k = Some (Fin w)"
      by (simp add: aggregate_row_def Let_def lookup_or_zero_def)
    with Cons.prems have "fold (aggregate_row fi cr) rs (aggregate_row fi cr r m) k
        = Some (Fin (w + total_for rs fi cr k))"
      by (intro fold_aggregate_finite) simp_all
    with True w show ?thesis by (simp add: total_for_def finite_value_def)
  next
    case False
    with Cons.prems have "aggregate_row fi cr r m k = None"
      by (simp add: aggregate_row_def Let_def)
    with Cons.prems have "fold (aggregate_row fi cr) rs (aggregate_row fi cr r m) k
        = (if k \<in> fips_of fi ` set rs then Some (Fin (total_for rs fi cr k)) else None)"
      by (intro Cons.IH) simp_all
    with False show ?thesis by (auto simp: total_for_def)
  qed
qed

lemma crashByFIPS_total:
  assumes "exact_weights rs cr"
  shows "crashByFIPS rs fi cr k
     = (if k \<in> fips_of fi ` set rs then Some (Fin (total_for rs fi cr k)) else None)"
  unfolding crashByFIPS_def
  using assms by (intro fold_aggregate_absent) (simp_all add: exact_weights_def list_all_iff)

lemma total_for_mset:
  assumes "mset rs' = mset rs"
  shows "total_for rs' fi cr k = total_for rs fi cr k"
proof -
  have "mset (filter (\<lambda>r. fips_of fi r = k) rs') = mset (filter (\<lambda>r. fips_of fi r = k) rs)"
    using assms by simp
  then have "mset (map (\<lambda>r. finite_value (weight_of cr r)) (filter (\<lambda>r. fips_of fi r = k) rs'))
      = mset (map (\<lambda>r. finite_value (weight_of cr r)) (filter (\<lambda>r. fips_of fi r = k) rs))"
    by (metis mset_map)
  then show ?thesis
    unfolding total_for_def by (metis sum_mset_sum_list)
qed

lemma exact_weights_mset:
  assumes "mset rs' = mset rs" and "exact_weights rs cr"
  shows "exact_weights rs' cr"
proof -
  from assms(1) have s: "set rs' = set rs" by (rule mset_eq_setD)
  from assms(1) have "mset (map (\<lambda>r. \<bar>finite_value (weight_of cr r)\<bar>) rs')
      = mset (map (\<lambda>r. \<bar>finite_value (weight_of cr r)\<bar>) rs)"
    by (metis mset_map)
  then have "(\<Sum>r\<leftarrow>rs'. \<bar>finite_value (weight_of cr r)\<bar>) = (\<Sum>r\<leftarrow>rs. \<bar>finite_value (weight_of cr r)\<bar>)"
    by (metis sum_mset_sum_list)
  with assms(2) s show ?thesis by (simp add: exact_weights_def list_all_iff)
qed

lemma weight_of_NaN: "ToNumber (cell_at r cr) = NaN \<Longrightarrow> weight_of cr r = Fin 0"
  by (simp add: weight_of_def or_zero_def)

lemma fips_of_missing: "nullish (cell_at r fi) \<Longrightarrow> fips_of fi r = []"
  by (simp add: fips_of_def)

lemma NumberToString_examples:
  "NumberToString (Fin 37063) = js ''37063''"
  "NumberToString (Fin 37119) = js ''37119''"
  "NumberToString (Fin 1001) = js ''1001''"
  by (simp_all add: NumberToString_def decimal.simps js_def)

text \<open>
  Claim C3, as stated, excludes a row whose region key is missing and makes every total
  the sum of the weights. A row whose key is \<open>null\<close> is aggregated under the empty
  string, so the totals differ from those of the batch without that row; and with the
  weights \<open>Infinity\<close>, \<open>-Infinity\<close>, 5 under one key the stored NaN is read back as 0 by
  \<open>crashByFIPS[f] || 0\<close>, so the total is 5 while the sum of the weights is NaN.
\<close>

theorem aggregation_missing_key_counterexample:
  "crashByFIPS [[CNull, CNum (Fin 7)]] 0 1 [] = Some (Fin 7)
   \<and> crashByFIPS (filter (\<lambda>r. \<not> nullish (cell_at r 0)) [[CNull, CNum (Fin 7)]]) 0 1 [] = None
   \<and> crashByFIPS [[CNum (Fin 37063), CNum PInf], [CNum (Fin 37063), CNum NInf],
                   [CNum (Fin 37063), CNum (Fin 5)]] 0 1 (js ''37063'') = Some (Fin 5)
   \<and> js_add (js_add (js_add (Fin 0) PInf) NInf) (Fin 5) = NaN"
  by (simp add: crashByFIPS_def aggregate_row_def fips_of_def weight_of_def cell_at_def
      nullish_def lookup_or_zero_def or_zero_def NumberToString_examples)

text \<open>
  Claim C3, amended. Every row is aggregated, under the key \<open>String(r[fipsIdx] ?? "")\<close>: a
  row whose key is missing is not excluded but counted under the empty string. The
  weight of a row is \<open>+r[crashIdx] || 0\<close>, so a weight that is not a number (NaN) counts
  as 0. For a batch whose weights are integers with absolute values summing to at most
  \<open>2^53\<close> (so that every addition of doubles is exact), \<open>crashByFIPS[k]\<close> is the sum of the
  weights of all rows with key \<open>k\<close>, duplicates added up and never overwritten, and \<open>k\<close>
  is absent when no row has that key.
\<close>

theorem aggregation_sums_by_key:
  assumes "exact_weights rs crashIdx"
  shows "crashByFIPS rs fipsIdx crashIdx k
           = (if k \<in> fips_of fipsIdx ` set rs
              then Some (Fin (total_for rs fipsIdx crashIdx k)) else None)
         \<and> (ToNumber (cell_at r crashIdx) = NaN \<longrightarrow> weight_of crashIdx r = Fin 0)
         \<and> (nullish (cell_at r fipsIdx) \<longrightarrow> fips_of fipsIdx r = [])
         \<and> (\<not> nullish (cell_at r fipsIdx) \<longrightarrow> fips_of fipsIdx r = ToString (cell_at r fipsIdx))"
  using crashByFIPS_total [OF assms] by (simp add: weight_of_NaN fips_of_def)

lemma example_batch_exact:
  "exact_weights [[CNum (Fin 37063), CNum (Fin 120)], [CNull, CNum (Fin 7)],
                  [CNum (Fin 37063), CNum (Fin 5)], [CNum (Fin 37063), CUndefined]] 1"
  by (simp add: exact_weights_def is_integer_def finite_value_def weight_of_def cell_at_def
      or_zero_def)

theorem aggregation_sums_by_key_witness:
  "crashByFIPS [[CNum (Fin 37063), CNum (Fin 120)], [CNull, CNum (Fin 7)],
                [CNum (Fin 37063), CNum (Fin 5)], [CNum (Fin 37063), CUndefined]] 0 1 (js ''37063'')
     = Some (Fin 125)
   \<and> crashByFIPS [[CNum (Fin 37063), CNum (Fin 120)], [CNull, CNum (Fin 7)],
                [CNum (Fin 37063), CNum (Fin 5)], [CNum (Fin 37063), CUndefined]] 0 1 []
     = Some (Fin 7)
   \<and> crashByFIPS [[CNum (Fin 37063), CNum (Fin 120)], [CNull, CNum (Fin 7)],
                [CNum (Fin 37063), CNum (Fin 5)], [CNum (Fin 37063), CUndefined]] 0 1 (js ''37119'')
     = None
   \<and> weight_of 1 [CNum (Fin 37063), CUndefined] = Fin 0
   \<and> fips_of 0 [CNull, CNum (Fin 7)] = []"
proof -
  let ?rs = "[[CNum (Fin 37063), CNum (Fin 120)], [CNull, CNum (Fin 7)],
              [CNum (Fin 37063), CNum (Fin 5)], [CNum (Fin 37063), CUndefined]]"
  have k: "fips_of 0 [CNum (Fin 37063), CNum (Fin 120)] = js ''37063''"
    "fips_of 0 [CNum (Fin 37063), CNum (Fin 5)] = js ''37063''"
    "fips_of 0 [CNum (Fin 37063), CUndefined] = js ''37063''"
    "fips_of 0 [CNull, CNum (Fin 7)] = []"
    by (simp_all add: fips_of_def cell_at_def nullish_def NumberToString_examples)
  have w: "weight_of 1 [CNum (Fin 37063), CNum (Fin 120)] = Fin 120"
    "weight_of 1 [CNum (Fin 37063), CNum (Fin 5)] = Fin 5"
    "weight_of 1 [CNum (Fin 37063), CUndefined] = Fin 0"
    "weight_of 1 [CNull, CNum (Fin 7)] = Fin 7"
    by (simp_all add: weight_of_def cell_at_def or_zero_def)
  have d: "js ''37063'' \<noteq> []" "js ''37119'' \<noteq> []" "js ''37119'' \<noteq> js ''37063''"
    by (simp_all add: js_def)
  have u: "ToNumber (cell_at [CNum (Fin 37063), CUndefined] 1) = NaN"
    and v: "nullish (cell_at [CNull, CNum (Fin 7)] 0)"
    by (simp_all add: cell_at_def nullish_def)
  from aggregation_sums_by_key [OF example_batch_exact,
      where fipsIdx = 0 and k = "js ''37063''" and r = "[CNum (Fin 37063), CUndefined]"]
  have a: "crashByFIPS ?rs 0 1 (js ''37063'')
        = (if js ''37063'' \<in> fips_of 0 ` set ?rs
           then Some (Fin (total_for ?rs 0 1 (js ''37063''))) else None)"
    and e: "ToNumber (cell_at [CNum (Fin 37063), CUndefined] 1) = NaN
        \<longrightarrow> weight_of 1 [CNum (Fin 37063), CUndefined] = Fin 0"
    by blast+
  from aggregation_sums_by_key [OF example_batch_exact,
      where fipsIdx = 0 and k = "[]" and r = "[CNull, CNum (Fin 7)]"]
  have b: "crashByFIPS ?rs 0 1 []
        = (if [] \<in> fips_of 0 ` set ?rs then Some (Fin (total_for ?rs 0 1 [])) else None)"
    and f: "nullish (cell_at [CNull, CNum (Fin 7)] 0) \<longrightarrow> fips_of 0 [CNull, CNum (Fin 7)] = []"
    by blast+
  from aggregation_sums_by_key [OF example_batch_exact,
      where fipsIdx = 0 and k = "js ''37119''" and r = "[]"]
  have c: "crashByFIPS ?rs 0 1 (js ''37119'')
        = (if js ''37119'' \<in> fips_of 0 ` set ?rs
           then Some (Fin (total_for ?rs 0 1 (js ''37119''))) else None)"
    by blast
  from a d have a': "crashByFIPS ?rs 0 1 (js ''37063'') = Some (Fin 125)"
    by (simp add: k w [unfolded One_nat_def] total_for_def finite_value_def)
  from b d have b': "crashByFIPS ?rs 0 1 [] = Some (Fin 7)"
    by (simp add: k w [unfolded One_nat_def] total_for_def finite_value_def)
  from c d have c': "crashByFIPS ?rs 0 1 (js ''37119'') = None"
    by (simp add: k w [unfolded One_nat_def] total_for_def finite_value_def)
  from e u have e': "weight_of 1 [CNum (Fin 37063), CUndefined] = Fin 0" by blast
  from f v have f': "fips_of 0 [CNull, CNum (Fin 7)] = []" by blast
  from a' b' c' e' f' show ?thesis by (intro conjI)
qed

text \<open>
  Claim C4, as stated, holds for every batch. The batch with the weights \<open>Infinity\<close>,
  \<open>-Infinity\<close>, 5 under one key has the total 5 in that order and NaN in the order
  \<open>Infinity\<close>, 5, \<open>-Infinity\<close>: the NaN of the two infinities is read back as 0 by
  \<open>crashByFIPS[f] || 0\<close> when another row follows, and stays when none does.
\<close>

theorem aggregation_order_counterexample:
  "mset [[CNum (Fin 37063), CNum PInf], [CNum (Fin 37063), CNum (Fin 5)],
         [CNum (Fin 37063), CNum NInf]]
     = mset [[CNum (Fin 37063), CNum PInf], [CNum (Fin 37063), CNum NInf],
             [CNum (Fin 37063), CNum (Fin 5)]]
   \<and> crashByFIPS [[CNum (Fin 37063), CNum PInf], [CNum (Fin 37063), CNum NInf],
                   [CNum (Fin 37063), CNum (Fin 5)]] 0 1 (js ''37063'') = Some (Fin 5)
   \<and> crashByFIPS [[CNum (Fin 37063), CNum PInf], [CNum (Fin 37063), CNum (Fin 5)],
                   [CNum (Fin 37063), CNum NInf]] 0 1 (js ''37063'') = Some NaN"
  by (simp add: crashByFIPS_def aggregate_row_def fips_of_def weight_of_def cell_at_def
      nullish_def lookup_or_zero_def or_zero_def NumberToString_examples)

text \<open>
  Claim C4, amended. For a batch whose weights are integers with absolute values summing
  to at most \<open>2^53\<close> (every addition of doubles is then exact, and no infinity or NaN
  arises), the aggregation of any reordering of the batch yields the same mapping.
\<close>

theorem aggregation_order_independent:
  assumes "exact_weights rs crashIdx" and "mset rs' = mset rs"
  shows "crashByFIPS rs' fipsIdx crashIdx = crashByFIPS rs fipsIdx crashIdx"
proof
  fix k
  from assms have e: "exact_weights rs' crashIdx"
    by (simp add: exact_weights_mset)
  from assms(2) have "set rs' = set rs" by (rule mset_eq_setD)
  then show "crashByFIPS rs' fipsIdx crashIdx k = crashByFIPS rs fipsIdx crashIdx k"
    by (simp add: crashByFIPS_total [OF e] crashByFIPS_total [OF assms(1)]
        total_for_mset [OF assms(2)])
qed

theorem aggregation_order_independent_witness:
  "crashByFIPS [[CNum (Fin 37063), CNum (Fin 5)], [CNum (Fin 37119), CNum (Fin 7)],
                [CNum (Fin 37063), CNum (Fin 120)]] 0 1
     = crashByFIPS [[CNum (Fin 37063), CNum (Fin 120)], [CNum (Fin 37119), CNum (Fin 7)],
                    [CNum (Fin 37063), CNum (Fin 5)]] 0 1
   \<and> crashByFIPS [[CNum (Fin 37063), CNum (Fin 120)], [CNum (Fin 37119), CNum (Fin 7)],
                   [CNum (Fin 37063), CNum (Fin 5)]] 0 1
     = [js ''37063'' \<mapsto> Fin 125, js ''37119'' \<mapsto> Fin 7]"
proof -
  have e: "exact_weights [[CNum (Fin 37063), CNum (Fin 120)], [CNum (Fin 37119), CNum (Fin 7)],
                          [CNum (Fin 37063), CNum (Fin 5)]] 1"
    by (simp add: exact_weights_def is_integer_def finite_value_def weight_of_def cell_at_def
        or_zero_def)
  have m: "mset [[CNum (Fin 37063), CNum (Fin 5)], [CNum (Fin 37119), CNum (Fin 7)],
                 [CNum (Fin 37063), CNum (Fin 120)]]
      = mset [[CNum (Fin 37063), CNum (Fin 120)], [CNum (Fin 37119), CNum (Fin 7)],
              [CNum (Fin 37063), CNum (Fin 5)]]"
    by simp
  have v: "crashByFIPS [[CNum (Fin 37063), CNum (Fin 120)], [CNum (Fin 37119), CNum (Fin 7)],
                        [CNum (Fin 37063), CNum (Fin 5)]] 0 1
      = [js ''37063'' \<mapsto> Fin 125, js ''37119'' \<mapsto> Fin 7]"
    by (simp add: crashByFIPS_def aggregate_row_def fips_of_def weight_of_def cell_at_def
        nullish_def lookup_or_zero_def or_zero_def NumberToString_examples)
      (simp add: js_def fun_upd_twist)
  from aggregation_order_independent [OF e m, of 0] v show ?thesis by simp
qed

text \<open>
  Claim C9 at a row whose FIPS code is the number 1001: the weight is accumulated under
  the key \<open>1001\<close>, which is not zero-padded, while the marker of the same row and the
  lookup of the county bounds use \<open>01001\<close>; \<open>crashByFIPS\<close> has no entry under the padded
  key.
\<close>

theorem aggregation_key_not_padded:
  "crashByFIPS [[CNum (Fin 32.5), CNum (Fin (-86.6)), CNum (Fin 3), CNum (Fin 1001),
                 CStr (js ''I-85'')]] 3 2 = [js ''1001'' \<mapsto> Fin 3]
   \<and> crashByFIPS [[CNum (Fin 32.5), CNum (Fin (-86.6)), CNum (Fin 3), CNum (Fin 1001),
                 CStr (js ''I-85'')]] 3 2 (js ''01001'') = None
   \<and> map data_fips (List.map_filter (make_marker 0 1 2 3)
        [[CNum (Fin 32.5), CNum (Fin (-86.6)), CNum (Fin 3), CNum (Fin 1001),
          CStr (js ''I-85'')]]) = [js ''01001'']
   \<and> filteredFIPS [[CNum (Fin 32.5), CNum (Fin (-86.6)), CNum (Fin 3), CNum (Fin 1001),
                 CStr (js ''I-85'')]] 3 = [js ''01001'']"
proof -
  have k: "\<And>a b c d. fips_of 3 [a, b, c, CNum (Fin 1001), d] = js ''1001''"
    by (simp add: fips_of_def cell_at_def nullish_def NumberToString_examples)
  have p: "padStart 5 48 (js ''1001'') = js ''01001''"
    by (simp add: padStart_def js_def)
  have a: "crashByFIPS [[CNum (Fin 32.5), CNum (Fin (-86.6)), CNum (Fin 3), CNum (Fin 1001),
      CStr (js ''I-85'')]] 3 2 = [js ''1001'' \<mapsto> Fin 3]"
    by (simp add: crashByFIPS_def aggregate_row_def k weight_of_def cell_at_def
        lookup_or_zero_def or_zero_def)
  have "js ''01001'' \<noteq> js ''1001''" by (simp add: js_def)
  with a have b: "crashByFIPS [[CNum (Fin 32.5), CNum (Fin (-86.6)), CNum (Fin 3),
      CNum (Fin 1001), CStr (js ''I-85'')]] 3 2 (js ''01001'') = None"
    by simp
  have c: "map data_fips (List.map_filter (make_marker 0 1 2 3)
        [[CNum (Fin 32.5), CNum (Fin (-86.6)), CNum (Fin 3), CNum (Fin 1001),
          CStr (js ''I-85'')]]) = [js ''01001'']"
    by (simp add: List.map_filter_def make_marker_def k p Let_def isNaN_def cell_at_def)
  have "js ''01001'' \<noteq> []" by (simp add: js_def)
  then have d: "filteredFIPS [[CNum (Fin 32.5), CNum (Fin (-86.6)), CNum (Fin 3),
      CNum (Fin 1001), CStr (js ''I-85'')]] 3 = [js ''01001'']"
    by (simp add: filteredFIPS_def k p Let_def set_add_def)
  from a b c d show ?thesis by simp
qed

subsection \<open>Category selection\<close>

lemma set_set_add [simp]: "set (set_add s x) = insert x (set s)"
  by (auto simp: set_add_def)

lemma distinct_set_add [simp]: "distinct s \<Longrightarrow> distinct (set_add s x)"
  by (simp add: set_add_def)
















subsection \<open>Further properties\<close>

text \<open>
  A cycle of retries always ends, after at most two calls: a call that schedules a retry
  is followed by a call that returns at line 194.
\<close>

theorem retry_cycle_terminates:
  "run_cycle (Suc (Suc n)) s opts =
     Some (fst (performUpdate s opts),
           if snd (performUpdate s opts) = RetryScheduled then Unchanged
           else snd (performUpdate s opts))"
  by (rule run_cycle_returns)

text \<open>
  A call that finds a column with the role \<open>interstate\<close> resets the retry counter: the
  counter is 0 after every call that ends past line 225.
\<close>

theorem retryCount_reset:
  assumes "snd (performUpdate s opts) = TypeError \<or> snd (performUpdate s opts) = MissingData
    \<or> snd (performUpdate s opts) = Completed"
  shows "retryCount (fst (performUpdate s opts)) = 0"
proof (cases "dataview_table opts")
  case None
  with assms show ?thesis by (simp add: performUpdate_NoTable)
next
  case (Some t)
  show ?thesis
  proof (cases "previousTableData s = Some t")
    case True
    with Some assms show ?thesis by (simp add: performUpdate_Unchanged)
  next
    case False
    from Some False show ?thesis
    proof (cases rule: performUpdate_endings)
      case Retry
      with assms show ?thesis by (simp add: retry_def split: if_splits)
    qed simp_all
  qed
qed

text \<open>The retry counter never exceeds 5, whatever happens to the visual.\<close>

theorem retryCount_at_most_5: "retryCount (run (constructed cs) es) \<le> 5"
proof (induction es rule: rev_induct)
  case Nil
  show ?case by (simp add: run_Nil constructed_def)
next
  case (snoc e es)
  then show ?case
    by (cases e)
      (simp_all add: run_snoc performUpdate_retryCount_bound toggle_overlay_def
        split: option.split)
qed

lemma phase_countyLayers:
  "countyLayers (style_counties m s) = map (style_county m) (countyLayers s)"
  "countyLayers (zoom_to_counties rs fi s) = countyLayers s"
  "countyLayers (rebuild_clusters rs la lo cr fi s) = countyLayers s"
  "countyLayers (remove_hccsLayer s) = countyLayers s"
  "countyLayers (create_hccsLayer w s) = countyLayers s"
  "countyLayers (add_overlay_once s) = countyLayers s"
  "countyLayers (enforce_z_order s) = countyLayers s"
  by (simp_all add: style_counties_def zoom_to_counties_def rebuild_clusters_def
      remove_hccsLayer_def create_hccsLayer_def add_overlay_once_def enforce_z_order_def
      Let_def split: option.split)

lemma phase_markers:
  "markers (rebuild_clusters rs la lo cr fi s) = List.map_filter (make_marker la lo cr fi) rs"
  "markers (remove_hccsLayer s) = markers s"
  "markers (create_hccsLayer w s) = markers s"
  "markers (add_overlay_once s) = markers s"
  "markers (enforce_z_order s) = markers s"
  by (simp_all add: rebuild_clusters_def remove_hccsLayer_def create_hccsLayer_def
      add_overlay_once_def enforce_z_order_def Let_def split: option.split)

lemma reconcile_layers:
  "countyLayers (reconcile rs la lo cr fi sel s)
     = map (style_county (crashByFIPS rs fi cr)) (countyLayers s)"
  "markers (reconcile rs la lo cr fi sel s) = List.map_filter (make_marker la lo cr fi) rs"
  by (simp_all add: reconcile_def phase_countyLayers phase_markers)

lemma example_selection: "selectedInterstates [] (table_rows example_table) 4 = [js ''I-40'']"
proof -
  have "trim (js ''I-40'') = js ''I-40''" and "js ''I-40'' \<noteq> []"
    by (simp_all add: trim_def js_def isWhiteSpace_def)
  then show ?thesis
    by (simp add: selectedInterstates_def table_rows_def example_table_def add_row_value_def
        cell_at_def nullish_def set_add_def Let_def)
qed

text \<open>
  The end-to-end example: the row at 35.5, -79.2 with FIPS code 37063 and weight 120
  gives the total 120 for the county, the fill colour of the class above 100, one
  marker at the coordinate, and the predicate over the one selected route.
\<close>

theorem end_to_end_example:
  "snd (performUpdate (constructed example_counties) example_options) = Completed
   \<and> crashByFIPS (table_rows example_table) 3 2 = [js ''37063'' \<mapsto> Fin 120]
   \<and> map (\<lambda>e. (fst e, fillColor (snd e)))
        (countyLayers (fst (performUpdate (constructed example_counties) example_options)))
     = [(js ''37063'', Some (js ''#fd8d3c''))]
   \<and> markers (fst (performUpdate (constructed example_counties) example_options))
     = [\<lparr> lat = Fin 35.5, lon = Fin (-79.2), data_fips = js ''37063'', data_value = Fin 120,
          weight = Fin 120 \<rparr>]
   \<and> hccsLayer (fst (performUpdate (constructed example_counties) example_options))
     = Some \<lparr> layer_id = 0, where_clause = js ''RouteName IN ('I-40')'' \<rparr>"
proof -
  let ?s = "(prepared (constructed example_counties) example_options example_table)\<lparr>retryCount := 0\<rparr>"
  have p: "performUpdate (constructed example_counties) example_options
      = (reconcile (table_rows example_table) 0 1 2 3
           (selectedInterstates [] (table_rows example_table) 4) ?s, Completed)"
    by (rule performUpdate_Completed)
      (simp_all add: example_options_def constructed_def example_indices)
  have k: "\<And>a b c d. fips_of 3 [a, b, c, CNum (Fin 37063), d] = js ''37063''"
    by (simp add: fips_of_def cell_at_def nullish_def NumberToString_examples)
  have t: "crashByFIPS (table_rows example_table) 3 2 = [js ''37063'' \<mapsto> Fin 120]"
    by (simp add: crashByFIPS_def table_rows_def example_table_def aggregate_row_def k
        weight_of_def cell_at_def lookup_or_zero_def or_zero_def)
  have c: "countyLayers ?s = example_counties"
    by (simp add: prepared_def resizeMap_def constructed_def)
  have f: "map (\<lambda>e. (fst e, fillColor (snd e)))
        (map (style_county [js ''37063'' \<mapsto> Fin 120]) example_counties)
      = [(js ''37063'', Some (js ''#fd8d3c''))]"
    by (simp add: example_counties_def style_county_def Let_def lookup_or_zero_def
        getColor_def breaks_def)
  have m: "List.map_filter (make_marker 0 1 2 3) (table_rows example_table)
      = [\<lparr> lat = Fin 35.5, lon = Fin (-79.2), data_fips = js ''37063'', data_value = Fin 120,
           weight = Fin 120 \<rparr>]"
    by (simp add: List.map_filter_def table_rows_def example_table_def make_marker_def k
        Let_def isNaN_def cell_at_def weight_of_def or_zero_def padStart_def)
      (simp add: js_def)
  have n: "created_layers ?s = 0"
    by (simp add: constructed_def)
  have w: "build_where [js ''I-40''] = js ''RouteName IN ('I-40')''"
    by (simp add: build_where_cases safeInterstates_def normalized_examples VALID_ROUTES_def
        in_predicate_def quoted_def)
      (simp add: js_def)
  have e: "snd (performUpdate (constructed example_counties) example_options) = Completed"
    by (simp add: p)
  have s: "fst (performUpdate (constructed example_counties) example_options)
      = reconcile (table_rows example_table) 0 1 2 3 [js ''I-40''] ?s"
    by (simp only: p example_selection fst_conv)
  have l: "map (\<lambda>e. (fst e, fillColor (snd e)))
        (countyLayers (fst (performUpdate (constructed example_counties) example_options)))
      = [(js ''37063'', Some (js ''#fd8d3c''))]"
    unfolding s reconcile_layers t c by (rule f)
  have k: "markers (fst (performUpdate (constructed example_counties) example_options))
      = [\<lparr> lat = Fin 35.5, lon = Fin (-79.2), data_fips = js ''37063'', data_value = Fin 120,
           weight = Fin 120 \<rparr>]"
    unfolding s reconcile_layers by (rule m)
  have h: "hccsLayer (fst (performUpdate (constructed example_counties) example_options))
      = Some \<lparr> layer_id = 0, where_clause = js ''RouteName IN ('I-40')'' \<rparr>"
    unfolding s reconcile_hccsLayer n w by (rule refl)
  from e t l k h show ?thesis
    by (intro conjI)
qed

end
